theory Spec2Isabelle
  imports Main "HOL-Library.Word" "HOL-Library.Monad_Syntax"
begin

unbundle bit_operations_syntax

section \<open>The DWC2 USB device driver (usbdev_synopsys_dwc2.c)\<close>

text \<open>
  A shallow embedding of the RIOT driver for the Synopsys DWC2 USB OTG core in device mode.
  The target MCUs (STM32, ESP32-S2/S3, EFM32) are 32-bit: \<open>uint32_t\<close>, \<open>size_t\<close> and
  \<open>unsigned\<close> are all \<open>32 word\<close>.
\<close>

type_synonym u32 = "32 word"

subsection \<open>The vendor header and the build configuration\<close>

text \<open>
  The register bit masks and bit positions come from the vendor headers (usbdev_stm32.h,
  usbdev_esp32.h, usbdev_efm32.h and the CMSIS device header), which are not part of the
  driver's source file. They are parameters of the model: every function takes the
  platform description \<open>p\<close> and reads a macro's value from it. The names are the macros'.
\<close>

datatype bitmask =
    USB_OTG_DCTL_GONSTS | USB_OTG_DCTL_SGONAK | USB_OTG_DCTL_CGONAK
  | USB_OTG_DCTL_GINSTS | USB_OTG_DCTL_SGINAK | USB_OTG_DCTL_CGINAK
  | USB_OTG_DCTL_SDIS
  | USB_OTG_DIEPCTL_EPENA | USB_OTG_DIEPCTL_EPDIS | USB_OTG_DIEPCTL_SNAK
  | USB_OTG_DIEPCTL_CNAK | USB_OTG_DIEPCTL_USBAEP | USB_OTG_DIEPCTL_SD0PID_SEVNFRM
  | USB_OTG_DOEPCTL_EPENA | USB_OTG_DOEPCTL_EPDIS | USB_OTG_DOEPCTL_SNAK
  | USB_OTG_DOEPCTL_CNAK | USB_OTG_DOEPCTL_USBAEP | USB_OTG_DOEPCTL_SD0PID_SEVNFRM
  | USB_OTG_DCFG_DAD_Msk
  | USB_OTG_GRSTCTL_TXFNUM | USB_OTG_GRSTCTL_TXFFLSH | USB_OTG_GRSTCTL_RXFFLSH
  | USB_OTG_PCGCCTL_STOPCLK
  | USB_OTG_GINTSTS_ENUMDNE | USB_OTG_GINTSTS_USBRST | USB_OTG_GINTSTS_SRQINT
  | USB_OTG_GINTSTS_USBSUSP | USB_OTG_GINTSTS_WKUINT | USB_OTG_GINTSTS_RXFLVL
  | USB_OTG_GINTSTS_OEPINT | USB_OTG_GINTSTS_IEPINT
  | USB_OTG_GAHBCFG_GINT
  | USB_OTG_DIEPTSIZ_XFRSIZ_Msk | USB_OTG_DOEPTSIZ_XFRSIZ_Msk
  | USB_OTG_GRXSTSP_PKTSTS_Msk | USB_OTG_GRXSTSP_BCNT_Msk | USB_OTG_GRXSTSP_EPNUM_Msk
  | USB_OTG_GRXFSIZ_RXFD

datatype bitpos =
    USB_OTG_DOEPCTL_EPTYP_Pos | USB_OTG_DIEPCTL_TXFNUM_Pos | USB_OTG_DCFG_DAD_Pos
  | USB_OTG_TX0FD_Pos | USB_OTG_GRSTCTL_TXFNUM_Pos
  | USB_OTG_DIEPTSIZ_PKTCNT_Pos | USB_OTG_DOEPTSIZ_PKTCNT_Pos | USB_OTG_DOEPTSIZ_STUPCNT_Pos
  | USB_OTG_GRXSTSP_PKTSTS_Pos | USB_OTG_GRXSTSP_BCNT_Pos

text \<open>
  The compile-time switches and sizes of the build. \<open>STM32_USB_OTG_HS_USE_DMA\<close> stands for
  the condition \<open>defined(DWC2_USB_OTG_HS_ENABLED) && STM32_USB_OTG_HS_USE_DMA\<close> of
  \<open>_uses_dma\<close>. \<open>ENOTSUP\<close> is the errno value, \<open>sizeof_usbopt_enable_t\<close> the size of the
  enum \<open>usbopt_enable_t\<close>, \<open>USBDEV_CPU_DMA_ALIGNMENT\<close> the alignment in bytes.
\<close>

record platform =
  msk :: "bitmask \<Rightarrow> u32"
  pos :: "bitpos \<Rightarrow> nat"
  DWC2_USB_OTG_FS_ENABLED :: bool
  DWC2_USB_OTG_HS_ENABLED :: bool
  STM32_USB_OTG_HS_USE_DMA :: bool
  STM32_USB_OTG_CID_1x :: bool
  DWC2_USB_OTG_FS_NUM_EP :: nat
  DWC2_USB_OTG_HS_NUM_EP :: nat
  DWC2_USB_OTG_FS_TOTAL_FIFO_SIZE :: u32
  DWC2_USB_OTG_HS_TOTAL_FIFO_SIZE :: u32
  DWC2_USB_OTG_FS_RX_FIFO_SIZE :: u32
  DWC2_USB_OTG_HS_RX_FIFO_SIZE :: u32
  USBDEV_CPU_DMA_ALIGNMENT :: nat
  ENOTSUP :: int
  sizeof_usbopt_enable_t :: nat

subsection \<open>Data\<close>

datatype dwc2_usb_otg_fshs_type = DWC2_USB_OTG_FS | DWC2_USB_OTG_HS

text \<open>Of \<open>dwc2_usb_otg_fshs_config_t\<close> the modelled functions read the field \<open>type\<close> only.\<close>

record dwc2_usb_otg_fshs_config =
  ctype :: dwc2_usb_otg_fshs_type

datatype usb_ep_type =
    USB_EP_TYPE_NONE | USB_EP_TYPE_CONTROL | USB_EP_TYPE_INTERRUPT
  | USB_EP_TYPE_BULK | USB_EP_TYPE_ISOCHRONOUS

datatype usb_ep_dir = USB_EP_DIR_OUT | USB_EP_DIR_IN

text \<open>
  \<open>usbdev_ep_t\<close>. The back reference \<open>dev\<close> is left out: the model has one peripheral
  instance. The statically allocated contexts start zeroed: type \<open>USB_EP_TYPE_NONE\<close>.
  Endpoint numbers and endpoint counts are small (at most 16 in this core): they are \<open>nat\<close>.
\<close>

record usbdev_ep =
  dir :: usb_ep_dir
  type :: usb_ep_type
  num :: nat
  len :: u32

record dwc2_usb_otg_fshs_out_ep =
  ep :: usbdev_ep
  out_buf :: nat

text \<open>A pointer to an endpoint context: an element of the array \<open>in\<close> or of the array \<open>out\<close>.\<close>

datatype ep_ref = In_ep nat | Out_ep nat

datatype usbdev_event =
    USBDEV_EVENT_ESR | USBDEV_EVENT_RESET | USBDEV_EVENT_SUSPEND
  | USBDEV_EVENT_RESUME | USBDEV_EVENT_TR_COMPLETE

text \<open>A call of the device callback \<open>cb\<close> or of the endpoint callback \<open>epcb\<close>.\<close>

datatype upcall = Cb usbdev_event | Epcb ep_ref usbdev_event

text \<open>The memory-mapped registers of one peripheral; the FIFO windows are arrays of words.\<close>

datatype reg =
    GAHBCFG | GRSTCTL | GINTSTS | GRXSTSR | GRXSTSP | GRXFSIZ | DIEPTXF0_HNPTXFSIZ
  | DIEPTXF nat
  | DCFG | DCTL | DAINT | DAINTMSK | DIEPEMPMSK
  | DIEPCTL nat | DIEPINT nat | DIEPTSIZ nat | DIEPDMA nat
  | DOEPCTL nat | DOEPINT nat | DOEPTSIZ nat | DOEPDMA nat
  | PCGCCTL
  | RX_FIFO nat | TX_FIFO nat nat

type_synonym regs = "reg \<Rightarrow> u32"

text \<open>
  The state: the register file, the log of the driver's register writes (oldest first),
  the fields of \<open>dwc2_usb_otg_fshs_t\<close>, the RAM that holds the transfer buffers (one word at
  each byte address that is used) and the log of the callbacks made to the upper layer.
\<close>

record sys =
  regs :: regs
  wlog :: "(reg \<times> u32) list"
  fifo_pos :: u32
  in_eps :: "nat \<Rightarrow> usbdev_ep"
  out_eps :: "nat \<Rightarrow> dwc2_usb_otg_fshs_out_ep"
  suspend :: bool
  mem :: "nat \<Rightarrow> u32"
  events :: "upcall list"

text \<open>
  An \<open>assert\<close> that fails stops the program: \<open>AssertFail s\<close> carries the state at that
  moment. \<open>Undefined\<close> is a C operation without defined behaviour.
\<close>

datatype 'a result = Returns 'a | AssertFail sys | Undefined

definition rd :: "sys \<Rightarrow> reg \<Rightarrow> u32" where
  "rd s r = regs s r"

definition wr :: "reg \<Rightarrow> u32 \<Rightarrow> sys \<Rightarrow> sys" where
  "wr r v s = s\<lparr>regs := (regs s)(r := v), wlog := wlog s @ [(r, v)]\<rparr>"

definition upcall :: "upcall \<Rightarrow> sys \<Rightarrow> sys" where
  "upcall u s = s\<lparr>events := events s @ [u]\<rparr>"

definition ctx :: "sys \<Rightarrow> ep_ref \<Rightarrow> usbdev_ep" where
  "ctx s r = (case r of In_ep i \<Rightarrow> in_eps s i | Out_ep i \<Rightarrow> ep (out_eps s i))"

subsection \<open>Configuration helpers\<close>

definition max_endpoints :: "platform \<Rightarrow> dwc2_usb_otg_fshs_config \<Rightarrow> nat" where
  "max_endpoints p config =
     (if ctype config = DWC2_USB_OTG_FS then DWC2_USB_OTG_FS_NUM_EP p
      else DWC2_USB_OTG_HS_NUM_EP p)"

definition uses_dma :: "platform \<Rightarrow> dwc2_usb_otg_fshs_config \<Rightarrow> bool" where
  "uses_dma p config =
     (if STM32_USB_OTG_HS_USE_DMA p then ctype config = DWC2_USB_OTG_HS else False)"

text \<open>\<open>_type_to_reg\<close> and \<open>_ep0_size\<close>: \<open>None\<close> is the \<open>assert(false)\<close> of the default case.\<close>

definition type_to_reg :: "platform \<Rightarrow> usb_ep_type \<Rightarrow> u32 option" where
  "type_to_reg p t =
     (case t of
        USB_EP_TYPE_CONTROL \<Rightarrow> Some (push_bit (pos p USB_OTG_DOEPCTL_EPTYP_Pos) 0)
      | USB_EP_TYPE_ISOCHRONOUS \<Rightarrow> Some (push_bit (pos p USB_OTG_DOEPCTL_EPTYP_Pos) 1)
      | USB_EP_TYPE_BULK \<Rightarrow> Some (push_bit (pos p USB_OTG_DOEPCTL_EPTYP_Pos) 2)
      | USB_EP_TYPE_INTERRUPT \<Rightarrow> Some (push_bit (pos p USB_OTG_DOEPCTL_EPTYP_Pos) 3)
      | USB_EP_TYPE_NONE \<Rightarrow> None)"

definition ep0_size :: "u32 \<Rightarrow> u32 option" where
  "ep0_size sz =
     (if sz = 64 then Some 0
      else if sz = 32 then Some 1
      else if sz = 16 then Some 2
      else if sz = 8 then Some 3
      else None)"

definition usb_attach :: "platform \<Rightarrow> sys \<Rightarrow> sys" where
  "usb_attach p s = wr DCTL (rd s DCTL AND NOT (msk p USB_OTG_DCTL_SDIS)) s"

definition usb_detach :: "platform \<Rightarrow> sys \<Rightarrow> sys" where
  "usb_detach p s = wr DCTL (rd s DCTL OR msk p USB_OTG_DCTL_SDIS) s"

definition set_address :: "platform \<Rightarrow> 8 word \<Rightarrow> sys \<Rightarrow> sys" where
  "set_address p address s =
     wr DCFG ((rd s DCFG AND NOT (msk p USB_OTG_DCFG_DAD_Msk))
              OR push_bit (pos p USB_OTG_DCFG_DAD_Pos) (ucast address)) s"

definition get_ep ::
  "platform \<Rightarrow> dwc2_usb_otg_fshs_config \<Rightarrow> nat \<Rightarrow> usb_ep_dir \<Rightarrow> ep_ref option" where
  "get_ep p config n d =
     (if n \<ge> max_endpoints p config then None
      else Some (if d = USB_EP_DIR_IN then In_ep n else Out_ep n))"

definition upd_ctx :: "ep_ref \<Rightarrow> (usbdev_ep \<Rightarrow> usbdev_ep) \<Rightarrow> sys \<Rightarrow> sys" where
  "upd_ctx r f s =
     (case r of
        In_ep i \<Rightarrow> s\<lparr>in_eps := (in_eps s)(i := f (in_eps s i))\<rparr>
      | Out_ep i \<Rightarrow> s\<lparr>out_eps := (out_eps s)(i := (out_eps s i)\<lparr>ep := f (ep (out_eps s i))\<rparr>)\<rparr>)"

subsection \<open>The FIFO allocator\<close>

text \<open>
  \<open>_total_fifo_size\<close> exists in builds with \<open>DEVELHELP\<close> and without \<open>NDEBUG\<close>, the
  builds in which \<open>assert\<close> checks its argument. The model is of such a build.
\<close>

definition total_fifo_size :: "platform \<Rightarrow> dwc2_usb_otg_fshs_config \<Rightarrow> u32" where
  "total_fifo_size p conf =
     (if ctype conf = DWC2_USB_OTG_FS
      then (if DWC2_USB_OTG_FS_ENABLED p then DWC2_USB_OTG_FS_TOTAL_FIFO_SIZE p else 0)
      else (if DWC2_USB_OTG_HS_ENABLED p then DWC2_USB_OTG_HS_TOTAL_FIFO_SIZE p else 0))"

definition DWC2_USB_OTG_FIFO_MIN_WORD_SIZE :: u32 where
  "DWC2_USB_OTG_FIFO_MIN_WORD_SIZE = 16"

text \<open>The local \<open>wordlen\<close> of \<open>_configure_tx_fifo\<close>, in \<open>size_t\<close> arithmetic.\<close>

definition tx_wordlen :: "u32 \<Rightarrow> u32" where
  "tx_wordlen ln =
     (if ln < DWC2_USB_OTG_FIFO_MIN_WORD_SIZE * 4 then DWC2_USB_OTG_FIFO_MIN_WORD_SIZE
      else (ln + (4 - 1)) div 4)"

text \<open>
  \<open>_configure_tx_fifo\<close>. The register array \<open>DIEPTXF\<close> has no element at index
  \<open>num - 1\<close> when \<open>num\<close> is 0; the only caller passes a non-zero number.
\<close>

definition configure_tx_fifo ::
  "platform \<Rightarrow> dwc2_usb_otg_fshs_config \<Rightarrow> nat \<Rightarrow> u32 \<Rightarrow> sys \<Rightarrow> sys result" where
  "configure_tx_fifo p conf n ln s =
     (let wordlen = tx_wordlen ln in
      if \<not> (fifo_pos s + wordlen \<le> total_fifo_size p conf div 4) then AssertFail s
      else if n = 0 then Undefined
      else Returns
        ((wr (DIEPTXF (n - 1))
            (push_bit (pos p USB_OTG_TX0FD_Pos) wordlen OR fifo_pos s) s)
         \<lparr>fifo_pos := fifo_pos s + wordlen\<rparr>))"

definition configure_fifo :: "platform \<Rightarrow> dwc2_usb_otg_fshs_config \<Rightarrow> sys \<Rightarrow> sys" where
  "configure_fifo p conf s =
     (let rx_size = (if ctype conf = DWC2_USB_OTG_FS then DWC2_USB_OTG_FS_RX_FIFO_SIZE p
                     else DWC2_USB_OTG_HS_RX_FIFO_SIZE p);
          s1 = wr GRXFSIZ ((rd s GRXFSIZ AND NOT (msk p USB_OTG_GRXFSIZ_RXFD)) OR rx_size) s;
          s2 = wr DIEPTXF0_HNPTXFSIZ
                 (push_bit (pos p USB_OTG_TX0FD_Pos) DWC2_USB_OTG_FIFO_MIN_WORD_SIZE OR rx_size) s1
      in s2\<lparr>fifo_pos := rx_size + DWC2_USB_OTG_FIFO_MIN_WORD_SIZE\<rparr>)"

subsection \<open>Claiming endpoints\<close>

text \<open>
  The loop of \<open>_usbdev_new_ep\<close>: the first index from \<open>idx\<close> below the number of
  endpoints whose context of the direction is unassigned. Inside the loop \<open>_get_ep\<close>
  cannot return \<open>NULL\<close>, since \<open>idx\<close> is below the bound that \<open>_get_ep\<close> checks.
\<close>

function find_unassigned ::
  "platform \<Rightarrow> dwc2_usb_otg_fshs_config \<Rightarrow> sys \<Rightarrow> usb_ep_dir \<Rightarrow> nat \<Rightarrow> (nat \<times> ep_ref) option" where
  "find_unassigned p conf s d idx =
     (if idx < max_endpoints p conf then
        (case get_ep p conf idx d of
           None \<Rightarrow> None
         | Some candidate_ep \<Rightarrow>
             if type (ctx s candidate_ep) = USB_EP_TYPE_NONE then Some (idx, candidate_ep)
             else find_unassigned p conf s d (idx + 1))
      else None)"
  by pat_completeness auto
termination
  by (relation "measure (\<lambda>(p, conf, s, d, idx). max_endpoints p conf - idx)") auto

text \<open>\<open>_usbdev_new_ep\<close>: the pointer returned, \<open>None\<close> for \<open>NULL\<close>, and the new state.\<close>

definition usbdev_new_ep ::
  "platform \<Rightarrow> dwc2_usb_otg_fshs_config \<Rightarrow> sys \<Rightarrow> usb_ep_type \<Rightarrow> usb_ep_dir \<Rightarrow> u32
     \<Rightarrow> (ep_ref option \<times> sys) result" where
  "usbdev_new_ep p conf s t d ln =
     (let found =
            (if t = USB_EP_TYPE_CONTROL
             then Some (0, if d = USB_EP_DIR_IN then In_ep 0 else Out_ep 0)
             else find_unassigned p conf s d 1)
      in case found of
           None \<Rightarrow> Returns (None, s)
         | Some (idx, e) \<Rightarrow>
             let s1 = upd_ctx e (\<lambda>c. c\<lparr>num := idx\<rparr>) s in
             if type (ctx s1 e) = USB_EP_TYPE_NONE then
               let s2 = upd_ctx e (\<lambda>c. c\<lparr>dir := d, type := t, len := ln\<rparr>) s1 in
               if dir (ctx s2 e) = USB_EP_DIR_IN \<and> num (ctx s2 e) \<noteq> 0 then
                 (case configure_tx_fifo p conf (num (ctx s2 e)) (len (ctx s2 e)) s2 of
                    Returns s3 \<Rightarrow> Returns (Some e, s3)
                  | AssertFail s3 \<Rightarrow> AssertFail s3
                  | Undefined \<Rightarrow> Undefined)
               else Returns (Some e, s2)
             else Returns (Some e, s1))"

subsection \<open>Device options\<close>

datatype usbopt =
    USBOPT_ADDRESS | USBOPT_ATTACH | USBOPT_MAX_VERSION | USBOPT_MAX_SPEED | USBOPT_OTHER nat

text \<open>
  \<open>_usbdev_set\<close>. The argument \<open>value\<close> is the memory behind the pointer, a byte at each
  offset. An object of the enum type \<open>usbopt_enable_t\<close> is true when one of its bytes is
  not zero.
\<close>

definition usbdev_set ::
  "platform \<Rightarrow> sys \<Rightarrow> usbopt \<Rightarrow> (nat \<Rightarrow> 8 word) \<Rightarrow> nat \<Rightarrow> (int \<times> sys) result" where
  "usbdev_set p s opt val value_len =
     (let res = - ENOTSUP p in
      case opt of
        USBOPT_ADDRESS \<Rightarrow>
          if value_len \<noteq> 1 then AssertFail s
          else let addr = val 0 in Returns (res, set_address p addr s)
      | USBOPT_ATTACH \<Rightarrow>
          if value_len \<noteq> sizeof_usbopt_enable_t p then AssertFail s
          else Returns (int (sizeof_usbopt_enable_t p),
                 if list_ex (\<lambda>i. val i \<noteq> 0) [0..<sizeof_usbopt_enable_t p]
                 then usb_attach p s else usb_detach p s)
      | _ \<Rightarrow> Returns (res, s))"

subsection \<open>Waiting for the hardware\<close>

text \<open>
  A loop \<open>while (REG & BIT) {}\<close> reads a register until the hardware changes it. The
  hardware is the function \<open>hw\<close> on the register file, applied once between two reads of
  the loop. A loop that the hardware never releases does not return: the value is \<open>None\<close>.
\<close>

partial_function (option) spin :: "(regs \<Rightarrow> regs) \<Rightarrow> (regs \<Rightarrow> bool) \<Rightarrow> regs \<Rightarrow> regs option" where
  "spin hw busy r = (if busy r then spin hw busy (hw r) else Some r)"

definition poll :: "(regs \<Rightarrow> regs) \<Rightarrow> (regs \<Rightarrow> bool) \<Rightarrow> sys \<Rightarrow> sys option" where
  "poll hw busy s = map_option (\<lambda>r. s\<lparr>regs := r\<rparr>) (spin hw busy (regs s))"

definition enable_global_out_nak :: "(regs \<Rightarrow> regs) \<Rightarrow> platform \<Rightarrow> sys \<Rightarrow> sys option" where
  "enable_global_out_nak hw p s =
     (if rd s DCTL AND msk p USB_OTG_DCTL_GONSTS \<noteq> 0 then Some s
      else poll hw (\<lambda>r. r DCTL AND msk p USB_OTG_DCTL_GONSTS = 0)
             (wr DCTL (rd s DCTL OR msk p USB_OTG_DCTL_SGONAK) s))"

definition disable_global_out_nak :: "(regs \<Rightarrow> regs) \<Rightarrow> platform \<Rightarrow> sys \<Rightarrow> sys option" where
  "disable_global_out_nak hw p s =
     (if rd s DCTL AND msk p USB_OTG_DCTL_GONSTS = 0 then Some s
      else poll hw (\<lambda>r. r DCTL AND msk p USB_OTG_DCTL_GONSTS \<noteq> 0)
             (wr DCTL (rd s DCTL OR msk p USB_OTG_DCTL_CGONAK) s))"

definition enable_global_in_nak :: "(regs \<Rightarrow> regs) \<Rightarrow> platform \<Rightarrow> sys \<Rightarrow> sys option" where
  "enable_global_in_nak hw p s =
     (if rd s DCTL AND msk p USB_OTG_DCTL_GINSTS \<noteq> 0 then Some s
      else poll hw (\<lambda>r. r DCTL AND msk p USB_OTG_DCTL_GINSTS = 0)
             (wr DCTL (rd s DCTL OR msk p USB_OTG_DCTL_SGINAK) s))"

definition disable_global_in_nak :: "(regs \<Rightarrow> regs) \<Rightarrow> platform \<Rightarrow> sys \<Rightarrow> sys option" where
  "disable_global_in_nak hw p s =
     (if rd s DCTL AND msk p USB_OTG_DCTL_GINSTS = 0 then Some s
      else poll hw (\<lambda>r. r DCTL AND msk p USB_OTG_DCTL_GINSTS \<noteq> 0)
             (wr DCTL (rd s DCTL OR msk p USB_OTG_DCTL_CGINAK) s))"

text \<open>\<open>_flush_tx_fifo\<close>: \<open>fifo_num\<close> is a \<open>uint8_t\<close>, 0x10 for all FIFOs.\<close>

definition flush_tx_fifo :: "(regs \<Rightarrow> regs) \<Rightarrow> platform \<Rightarrow> 8 word \<Rightarrow> sys \<Rightarrow> sys option" where
  "flush_tx_fifo hw p fifo_num s =
     (let reg = rd s GRSTCTL AND NOT (msk p USB_OTG_GRSTCTL_TXFNUM);
          reg = reg OR (push_bit (pos p USB_OTG_GRSTCTL_TXFNUM_Pos) (ucast fifo_num)
                        OR msk p USB_OTG_GRSTCTL_TXFFLSH)
      in poll hw (\<lambda>r. r GRSTCTL AND msk p USB_OTG_GRSTCTL_TXFFLSH \<noteq> 0) (wr GRSTCTL reg s))"

definition flush_rx_fifo :: "(regs \<Rightarrow> regs) \<Rightarrow> platform \<Rightarrow> sys \<Rightarrow> sys option" where
  "flush_rx_fifo hw p s =
     poll hw (\<lambda>r. r GRSTCTL AND msk p USB_OTG_GRSTCTL_RXFFLSH \<noteq> 0)
       (wr GRSTCTL (rd s GRSTCTL OR msk p USB_OTG_GRSTCTL_RXFFLSH) s)"

subsection \<open>Enabling and disabling endpoints\<close>

definition ep_in_disable :: "(regs \<Rightarrow> regs) \<Rightarrow> platform \<Rightarrow> nat \<Rightarrow> sys \<Rightarrow> sys option" where
  "ep_in_disable hw p n s =
     (if rd s (DIEPCTL n) AND msk p USB_OTG_DIEPCTL_EPENA \<noteq> 0 then
        do {
          s1 \<leftarrow> enable_global_in_nak hw p s;
          s2 \<leftarrow> flush_tx_fifo hw p (of_nat n) s1;
          s3 \<leftarrow> poll hw (\<lambda>r. r (DIEPCTL n) AND msk p USB_OTG_DIEPCTL_EPDIS \<noteq> 0)
                 (wr (DIEPCTL n)
                    (msk p USB_OTG_DIEPCTL_EPDIS OR msk p USB_OTG_DIEPCTL_SNAK) s2);
          disable_global_in_nak hw p s3
        }
      else Some s)"

definition ep_out_disable :: "(regs \<Rightarrow> regs) \<Rightarrow> platform \<Rightarrow> nat \<Rightarrow> sys \<Rightarrow> sys option" where
  "ep_out_disable hw p n s =
     (if rd s (DOEPCTL n) AND msk p USB_OTG_DOEPCTL_EPENA \<noteq> 0 then
        do {
          s1 \<leftarrow> enable_global_out_nak hw p s;
          s2 \<leftarrow> poll hw (\<lambda>r. r (DOEPCTL n) AND msk p USB_OTG_DOEPCTL_EPDIS \<noteq> 0)
                 (wr (DOEPCTL n)
                    (msk p USB_OTG_DOEPCTL_EPDIS OR msk p USB_OTG_DOEPCTL_SNAK) s1);
          disable_global_out_nak hw p s2
        }
      else Some s)"

definition DWC2_USB_OTG_REG_EP_OUT_OFFSET :: nat where
  "DWC2_USB_OTG_REG_EP_OUT_OFFSET = 16"

text \<open>
  \<open>_ep_activate\<close>, on the context behind the pointer \<open>e\<close>. In the branch of the OUT
  direction the value of \<open>_type_to_reg(ep->type)\<close> is computed in a statement of its own.
\<close>

definition ep_activate :: "(regs \<Rightarrow> regs) \<Rightarrow> platform \<Rightarrow> sys \<Rightarrow> ep_ref \<Rightarrow> sys result option" where
  "ep_activate hw p s e =
     (let c = ctx s e; n = num c in
      if dir c = USB_EP_DIR_IN then
        do {
          s1 \<leftarrow> ep_in_disable hw p n s;
          let s2 = wr DAINTMSK (rd s1 DAINTMSK OR push_bit n 1) s1;
          Some (case type_to_reg p (type c) of
              None \<Rightarrow> AssertFail s2
            | Some t \<Rightarrow>
                let diepctl = msk p USB_OTG_DIEPCTL_SNAK OR msk p USB_OTG_DIEPCTL_USBAEP OR t
                                OR push_bit (pos p USB_OTG_DIEPCTL_TXFNUM_Pos) (of_nat n)
                in if n = 0 then
                     (case ep0_size (len c) of
                        None \<Rightarrow> AssertFail s2
                      | Some z \<Rightarrow>
                          Returns (wr (DIEPCTL n) (rd s2 (DIEPCTL n) OR (diepctl OR z)) s2))
                   else
                     Returns (wr (DIEPCTL n)
                       (rd s2 (DIEPCTL n)
                          OR ((diepctl OR len c) OR msk p USB_OTG_DIEPCTL_SD0PID_SEVNFRM)) s2))
        }
      else
        do {
          s1 \<leftarrow> ep_out_disable hw p n s;
          let s2 = wr DAINTMSK
                     (rd s1 DAINTMSK OR push_bit (n + DWC2_USB_OTG_REG_EP_OUT_OFFSET) 1) s1;
          let s3 = wr (DOEPCTL n)
                     (rd s2 (DOEPCTL n)
                        OR (msk p USB_OTG_DOEPCTL_SNAK OR msk p USB_OTG_DOEPCTL_USBAEP)) s2;
          Some (case type_to_reg p (type c) of
              None \<Rightarrow> AssertFail s3
            | Some t \<Rightarrow>
                if n = 0 then
                  (case ep0_size (len c) of
                     None \<Rightarrow> AssertFail s3
                   | Some z \<Rightarrow> Returns (wr (DOEPCTL n) (rd s3 (DOEPCTL n) OR z) s3))
                else
                  let s4 = wr (DOEPCTL n) (rd s3 (DOEPCTL n) OR len c) s3
                  in Returns (wr (DOEPCTL n)
                       (rd s4 (DOEPCTL n) OR msk p USB_OTG_DOEPCTL_SD0PID_SEVNFRM) s4))
        })"

subsection \<open>Suspend, wake-up and reset\<close>

text \<open>
  The calls into the power management and the clock tree (\<open>pm_block\<close>, \<open>pm_unblock\<close>,
  \<open>CMU_ClockSelectSet\<close>) do not touch the peripheral or the driver's data; they are left out.
\<close>

definition sleep_periph :: "platform \<Rightarrow> sys \<Rightarrow> sys" where
  "sleep_periph p s = wr PCGCCTL (rd s PCGCCTL OR msk p USB_OTG_PCGCCTL_STOPCLK) s"

definition wake_periph :: "(regs \<Rightarrow> regs) \<Rightarrow> platform \<Rightarrow> sys \<Rightarrow> sys option" where
  "wake_periph hw p s =
     do {
       let s1 = wr PCGCCTL (rd s PCGCCTL AND NOT (msk p USB_OTG_PCGCCTL_STOPCLK)) s;
       s2 \<leftarrow> flush_rx_fifo hw p s1;
       flush_tx_fifo hw p 0x10 s2
     }"

definition reset_ep :: "platform \<Rightarrow> nat \<Rightarrow> sys \<Rightarrow> sys" where
  "reset_ep p i s =
     (let s1 = wr (DOEPCTL i) (rd s (DOEPCTL i) OR msk p USB_OTG_DOEPCTL_SNAK) s;
          s2 = wr (DIEPCTL i) (rd s1 (DIEPCTL i) OR msk p USB_OTG_DIEPCTL_SNAK) s1
      in wr (DIEPCTL i)
           (rd s2 (DIEPCTL i) OR push_bit (pos p USB_OTG_DIEPCTL_TXFNUM_Pos) (of_nat i)) s2)"

text \<open>\<open>_reset_eps\<close>: the body \<open>reset_ep\<close> of the loop for every \<open>i\<close> below the number of endpoints.\<close>

definition reset_eps :: "platform \<Rightarrow> dwc2_usb_otg_fshs_config \<Rightarrow> sys \<Rightarrow> sys" where
  "reset_eps p conf s = fold (reset_ep p) [0..<max_endpoints p conf] s"

text \<open>The last two statements of \<open>_usbdev_esr\<close>.\<close>

definition esr_finish :: "platform \<Rightarrow> u32 \<Rightarrow> sys \<Rightarrow> sys" where
  "esr_finish p event s =
     (let s1 = wr GINTSTS (rd s GINTSTS OR event) s
      in wr GAHBCFG (rd s1 GAHBCFG OR msk p USB_OTG_GAHBCFG_GINT) s1)"

definition usbdev_esr ::
  "(regs \<Rightarrow> regs) \<Rightarrow> platform \<Rightarrow> dwc2_usb_otg_fshs_config \<Rightarrow> sys \<Rightarrow> sys option" where
  "usbdev_esr hw p conf s =
     (let int_status = rd s GINTSTS in
      if int_status AND msk p USB_OTG_GINTSTS_ENUMDNE \<noteq> 0 then
        Some (esr_finish p (msk p USB_OTG_GINTSTS_ENUMDNE) (upcall (Cb USBDEV_EVENT_RESET) s))
      else if int_status AND msk p USB_OTG_GINTSTS_USBRST \<noteq> 0 then
        do {
          s1 \<leftarrow> (if suspend s then wake_periph hw p (s\<lparr>suspend := False\<rparr>) else Some s);
          s2 \<leftarrow> flush_rx_fifo hw p s1;
          s3 \<leftarrow> flush_tx_fifo hw p 0x10 s2;
          Some (esr_finish p (msk p USB_OTG_GINTSTS_USBRST)
                  (set_address p 0 (reset_eps p conf s3)))
        }
      else if int_status AND msk p USB_OTG_GINTSTS_SRQINT \<noteq> 0 then
        Some (esr_finish p (msk p USB_OTG_GINTSTS_SRQINT) s)
      else if int_status AND msk p USB_OTG_GINTSTS_USBSUSP \<noteq> 0 then
        Some (esr_finish p (msk p USB_OTG_GINTSTS_USBSUSP)
                (if \<not> suspend s
                 then sleep_periph p ((upcall (Cb USBDEV_EVENT_SUSPEND) s)\<lparr>suspend := True\<rparr>)
                 else s))
      else if int_status AND msk p USB_OTG_GINTSTS_WKUINT \<noteq> 0 then
        (if suspend s then
           do {
             s1 \<leftarrow> wake_periph hw p (s\<lparr>suspend := False\<rparr>);
             Some (esr_finish p (msk p USB_OTG_GINTSTS_WKUINT)
                     (upcall (Cb USBDEV_EVENT_RESUME) s1))
           }
         else Some (esr_finish p (msk p USB_OTG_GINTSTS_WKUINT) s))
      else Some (esr_finish p 0 s))"

subsection \<open>Transfers\<close>

text \<open>
  \<open>_usbdev_ep_xmit\<close>, on the context behind the pointer \<open>e\<close>; \<open>buf\<close> is the address of the
  buffer. In the OUT direction \<open>container_of\<close> is defined for a pointer into the array
  \<open>out\<close> only.
\<close>

definition usbdev_ep_xmit ::
  "platform \<Rightarrow> dwc2_usb_otg_fshs_config \<Rightarrow> sys \<Rightarrow> ep_ref \<Rightarrow> nat \<Rightarrow> u32 \<Rightarrow> (int \<times> sys) result" where
  "usbdev_ep_xmit p conf s e buf ln =
     (let c = ctx s e; n = num c in
      if uses_dma p conf \<and> buf mod USBDEV_CPU_DMA_ALIGNMENT p \<noteq> 0 then AssertFail s
      else if dir c = USB_EP_DIR_IN then
        (if rd s (DIEPCTL n) AND msk p USB_OTG_DIEPCTL_USBAEP = 0 then Returns (- 1, s)
         else
           let s1 = (if uses_dma p conf then wr (DIEPDMA n) (of_nat buf) s else s);
               dieptsiz = ln AND msk p USB_OTG_DIEPTSIZ_XFRSIZ_Msk;
               dieptsiz = (if n = 0 \<or> uses_dma p conf
                           then dieptsiz OR push_bit (pos p USB_OTG_DIEPTSIZ_PKTCNT_Pos) 1
                           else dieptsiz);
               s2 = wr (DIEPTSIZ n) dieptsiz s1;
               s3 = wr DAINTMSK (rd s2 DAINTMSK OR push_bit n 1) s2;
               s4 = wr DIEPEMPMSK (rd s3 DIEPEMPMSK OR push_bit n 1) s3;
               s5 = wr (DIEPCTL n)
                      (rd s4 (DIEPCTL n)
                         OR (msk p USB_OTG_DIEPCTL_CNAK OR msk p USB_OTG_DIEPCTL_EPENA)) s4
           in if ln > 0 \<and> \<not> uses_dma p conf then
                let words = (ln + 3) div 4
                in Returns (0, fold (\<lambda>i t. wr (TX_FIFO n i) (mem t (buf + 4 * i)) t)
                                 [0..<unat words] s5)
              else Returns (0, s5))
      else
        (if rd s (DOEPCTL n) AND msk p USB_OTG_DOEPCTL_USBAEP = 0 then Returns (- 1, s)
         else
           let stored =
                 (if uses_dma p conf then Some (wr (DOEPDMA n) (of_nat buf) s)
                  else (case e of
                          Out_ep i \<Rightarrow>
                            Some (s\<lparr>out_eps := (out_eps s)(i := (out_eps s i)\<lparr>out_buf := buf\<rparr>)\<rparr>)
                        | In_ep i \<Rightarrow> None))
           in case stored of
                None \<Rightarrow> Undefined
              | Some s1 \<Rightarrow>
                  let doeptsiz = push_bit (pos p USB_OTG_DOEPTSIZ_PKTCNT_Pos) 1
                                   OR (len c AND msk p USB_OTG_DOEPTSIZ_XFRSIZ_Msk);
                      doeptsiz = doeptsiz OR (if n = 0
                                   then push_bit (pos p USB_OTG_DOEPTSIZ_STUPCNT_Pos) 1 else 0);
                      s2 = wr (DOEPTSIZ n) doeptsiz s1
                  in (case type_to_reg p (type c) of
                        None \<Rightarrow> AssertFail s2
                      | Some t \<Rightarrow>
                          Returns (0, wr (DOEPCTL n)
                            (rd s2 (DOEPCTL n)
                               OR ((msk p USB_OTG_DOEPCTL_CNAK OR msk p USB_OTG_DOEPCTL_EPENA)
                                   OR t)) s2))))"

subsection \<open>Receiving\<close>

definition copy_rxfifo :: "sys \<Rightarrow> nat \<Rightarrow> u32 \<Rightarrow> sys" where
  "copy_rxfifo s buf ln =
     (let count = (ln + 3) div 4
      in fold (\<lambda>i t. t\<lparr>mem := (mem t)(buf + 4 * i := rd t (RX_FIFO i))\<rparr>) [0..<unat count] s)"

definition DWC2_PKTSTS_DATA_UPDT :: u32 where "DWC2_PKTSTS_DATA_UPDT = 0x02"
definition DWC2_PKTSTS_XFER_COMP :: u32 where "DWC2_PKTSTS_XFER_COMP = 0x03"
definition DWC2_PKTSTS_SETUP_COMP :: u32 where "DWC2_PKTSTS_SETUP_COMP = 0x04"
definition DWC2_PKTSTS_SETUP_UPDT :: u32 where "DWC2_PKTSTS_SETUP_UPDT = 0x06"

definition pkt_status_of :: "platform \<Rightarrow> u32 \<Rightarrow> u32" where
  "pkt_status_of p status =
     drop_bit (pos p USB_OTG_GRXSTSP_PKTSTS_Pos) (status AND msk p USB_OTG_GRXSTSP_PKTSTS_Msk)"

definition len_of :: "platform \<Rightarrow> u32 \<Rightarrow> u32" where
  "len_of p status =
     drop_bit (pos p USB_OTG_GRXSTSP_BCNT_Pos) (status AND msk p USB_OTG_GRXSTSP_BCNT_Msk)"

text \<open>
  \<open>_read_packet\<close> on the element \<open>i\<close> of the array \<open>out\<close>. The status is the value that the
  read of \<open>GRXSTSP\<close> returns. The delay of the EFM32 build is left out.
\<close>

definition read_packet :: "platform \<Rightarrow> sys \<Rightarrow> nat \<Rightarrow> sys" where
  "read_packet p s i =
     (let st_ep = out_eps s i;
          status = rd s GRXSTSP;
          pkt_status = pkt_status_of p status;
          ln = len_of p status
      in if pkt_status = DWC2_PKTSTS_DATA_UPDT \<or> pkt_status = DWC2_PKTSTS_SETUP_UPDT then
           (let s1 = copy_rxfifo s (out_buf st_ep) ln
            in if \<not> STM32_USB_OTG_CID_1x p \<and> num (ep st_ep) = 0 \<and> ln \<noteq> 0
               then upcall (Epcb (Out_ep i) USBDEV_EVENT_TR_COMPLETE) s1
               else s1)
         else if pkt_status = DWC2_PKTSTS_XFER_COMP \<or> pkt_status = DWC2_PKTSTS_SETUP_COMP then
           upcall (Epcb (Out_ep i) USBDEV_EVENT_TR_COMPLETE) s
         else s)"

subsection \<open>The interrupt dispatcher\<close>

text \<open>
  Modelled from the spec: \<open>bitarithm_lsb\<close> of bitarithm.h, which is not part of the driver's
  source file: "identify the lowest-numbered pending endpoint", the index of the lowest
  bit that is set.
\<close>

definition bitarithm_lsb :: "u32 \<Rightarrow> nat" where
  "bitarithm_lsb v = (case find (bit v) [0..<32] of Some n \<Rightarrow> n | None \<Rightarrow> 0)"

text \<open>
  The dispatcher calls the callbacks \<open>cb\<close> and \<open>epcb\<close> of the upper layer through function
  pointers. Here the upper layer is any function \<open>up\<close> on the state. The call of
  \<open>cortexm_isr_end\<close> after the dispatch belongs to the scheduler and is left out.
\<close>

definition isr_ep :: "(upcall \<Rightarrow> sys \<Rightarrow> sys) \<Rightarrow> sys \<Rightarrow> sys" where
  "isr_ep up s =
     (let active_ep = rd s DAINT in
      if active_ep \<noteq> 0 then
        (let epnum = bitarithm_lsb active_ep in
         if epnum \<ge> DWC2_USB_OTG_REG_EP_OUT_OFFSET
         then up (Epcb (Out_ep (epnum - DWC2_USB_OTG_REG_EP_OUT_OFFSET)) USBDEV_EVENT_ESR) s
         else up (Epcb (In_ep epnum) USBDEV_EVENT_ESR) s)
      else s)"

definition isr_common ::
  "(upcall \<Rightarrow> sys \<Rightarrow> sys) \<Rightarrow> platform \<Rightarrow> dwc2_usb_otg_fshs_config \<Rightarrow> sys \<Rightarrow> sys" where
  "isr_common up p conf s =
     (let status = rd s GINTSTS in
      if status \<noteq> 0 then
        (let s1 =
           (if status AND msk p USB_OTG_GINTSTS_RXFLVL \<noteq> 0 \<and> \<not> uses_dma p conf then
              (let epnum = rd s GRXSTSR AND msk p USB_OTG_GRXSTSP_EPNUM_Msk
               in up (Epcb (Out_ep (unat epnum)) USBDEV_EVENT_ESR) s)
            else if rd s GINTSTS
                      AND (msk p USB_OTG_GINTSTS_OEPINT OR msk p USB_OTG_GINTSTS_IEPINT) \<noteq> 0
            then isr_ep up s
            else up (Cb USBDEV_EVENT_ESR) s)
         in wr GAHBCFG (rd s1 GAHBCFG AND NOT (msk p USB_OTG_GAHBCFG_GINT)) s1)
      else s)"

subsection \<open>Sequences of calls\<close>

text \<open>
  A sequence of \<open>_usbdev_new_ep\<close> calls, each request a type, a direction and a length.
  For every call that returns, the pointer returned and the number of words by which the
  call advanced the FIFO cursor are recorded. A failing assertion ends the program, and
  the sequence with it.
\<close>

type_synonym request = "usb_ep_type \<times> usb_ep_dir \<times> u32"

fun claim_seq ::
  "platform \<Rightarrow> dwc2_usb_otg_fshs_config \<Rightarrow> sys \<Rightarrow> request list
     \<Rightarrow> (ep_ref option \<times> nat) list \<times> sys result" where
  "claim_seq p conf s [] = ([], Returns s)"
| "claim_seq p conf s ((t, d, ln) # rs) =
     (case usbdev_new_ep p conf s t d ln of
        Returns (r, s') \<Rightarrow>
          (case claim_seq p conf s' rs of
             (calls, out) \<Rightarrow> ((r, unat (fifo_pos s') - unat (fifo_pos s)) # calls, out))
      | AssertFail s' \<Rightarrow> ([], AssertFail s')
      | Undefined \<Rightarrow> ([], Undefined))"

definition index_of :: "ep_ref \<Rightarrow> nat" where
  "index_of e = (case e of In_ep i \<Rightarrow> i | Out_ep i \<Rightarrow> i)"

text \<open>The endpoint numbers that the calls of a sequence returned, without the \<open>NULL\<close>s.\<close>

fun returned_numbers :: "(ep_ref option \<times> nat) list \<Rightarrow> nat list" where
  "returned_numbers [] = []"
| "returned_numbers ((None, w) # cs) = returned_numbers cs"
| "returned_numbers ((Some e, w) # cs) = index_of e # returned_numbers cs"

definition fifo_capacity :: "platform \<Rightarrow> dwc2_usb_otg_fshs_config \<Rightarrow> nat" where
  "fifo_capacity p conf = unat (total_fifo_size p conf div 4)"

text \<open>
  What an observer sees of one run of \<open>_usbdev_esr\<close>: whether the run took the branch of
  the reset start, and the callbacks it made.
\<close>

datatype obs = Reset_start_handled | Delivered upcall

definition reset_start_pending :: "platform \<Rightarrow> sys \<Rightarrow> bool" where
  "reset_start_pending p s =
     (rd s GINTSTS AND msk p USB_OTG_GINTSTS_ENUMDNE = 0
      \<and> rd s GINTSTS AND msk p USB_OTG_GINTSTS_USBRST \<noteq> 0)"

definition suspend_pending :: "platform \<Rightarrow> sys \<Rightarrow> bool" where
  "suspend_pending p s =
     (rd s GINTSTS AND msk p USB_OTG_GINTSTS_ENUMDNE = 0
      \<and> rd s GINTSTS AND msk p USB_OTG_GINTSTS_USBRST = 0
      \<and> rd s GINTSTS AND msk p USB_OTG_GINTSTS_SRQINT = 0
      \<and> rd s GINTSTS AND msk p USB_OTG_GINTSTS_USBSUSP \<noteq> 0)"

definition wake_pending :: "platform \<Rightarrow> sys \<Rightarrow> bool" where
  "wake_pending p s =
     (rd s GINTSTS AND msk p USB_OTG_GINTSTS_ENUMDNE = 0
      \<and> rd s GINTSTS AND msk p USB_OTG_GINTSTS_USBRST = 0
      \<and> rd s GINTSTS AND msk p USB_OTG_GINTSTS_SRQINT = 0
      \<and> rd s GINTSTS AND msk p USB_OTG_GINTSTS_USBSUSP = 0
      \<and> rd s GINTSTS AND msk p USB_OTG_GINTSTS_WKUINT \<noteq> 0)"

definition new_events :: "sys \<Rightarrow> sys \<Rightarrow> upcall list" where
  "new_events s s' = drop (length (events s)) (events s')"

definition esr_obs :: "platform \<Rightarrow> sys \<Rightarrow> sys \<Rightarrow> obs list" where
  "esr_obs p s s' =
     (if reset_start_pending p s then [Reset_start_handled] else [])
     @ map Delivered (new_events s s')"

text \<open>
  A sequence of runs of \<open>_usbdev_esr\<close>. Before each run the hardware changes the registers
  (it raises interrupt flags): the function \<open>irq\<close>. A run that does not return ends the
  sequence.
\<close>

fun esr_seq ::
  "(regs \<Rightarrow> regs) \<Rightarrow> platform \<Rightarrow> dwc2_usb_otg_fshs_config \<Rightarrow> sys \<Rightarrow> (regs \<Rightarrow> regs) list
     \<Rightarrow> obs list \<times> sys option" where
  "esr_seq hw p conf s [] = ([], Some s)"
| "esr_seq hw p conf s (irq # irqs) =
     (let s1 = s\<lparr>regs := irq (regs s)\<rparr> in
      case usbdev_esr hw p conf s1 of
        None \<Rightarrow> ([], None)
      | Some s2 \<Rightarrow>
          (case esr_seq hw p conf s2 irqs of (os, out) \<Rightarrow> (esr_obs p s1 s2 @ os, out)))"

text \<open>
  No second SUSPEND without a RESUME or a handled reset start in between; the flag says
  whether a SUSPEND is the last of these three that was seen.
\<close>

fun no_double_suspend :: "bool \<Rightarrow> obs list \<Rightarrow> bool" where
  "no_double_suspend b [] = True"
| "no_double_suspend b (Reset_start_handled # os) = no_double_suspend False os"
| "no_double_suspend b (Delivered (Cb USBDEV_EVENT_SUSPEND) # os) =
     (\<not> b \<and> no_double_suspend True os)"
| "no_double_suspend b (Delivered (Cb USBDEV_EVENT_RESUME) # os) = no_double_suspend False os"
| "no_double_suspend b (Delivered u # os) = no_double_suspend b os"

text \<open>The hardware releases every loop that waits while \<open>busy\<close> holds.\<close>

definition releases :: "(regs \<Rightarrow> regs) \<Rightarrow> (regs \<Rightarrow> bool) \<Rightarrow> bool" where
  "releases hw busy = (\<forall>r. \<exists>k. \<not> busy ((hw ^^ k) r))"

subsection \<open>An example platform\<close>

text \<open>
  For the evaluations at concrete inputs: the bit layout of the OTG_FS core of the STM32F4
  as its CMSIS header gives it, four endpoints, 1280 bytes of FIFO memory, no DMA.
\<close>

fun stm32_msk :: "bitmask \<Rightarrow> u32" where
  "stm32_msk USB_OTG_DCTL_SDIS = 0x2"
| "stm32_msk USB_OTG_DCTL_GINSTS = 0x4"
| "stm32_msk USB_OTG_DCTL_GONSTS = 0x8"
| "stm32_msk USB_OTG_DCTL_SGINAK = 0x80"
| "stm32_msk USB_OTG_DCTL_CGINAK = 0x100"
| "stm32_msk USB_OTG_DCTL_SGONAK = 0x200"
| "stm32_msk USB_OTG_DCTL_CGONAK = 0x400"
| "stm32_msk USB_OTG_DIEPCTL_USBAEP = 0x8000"
| "stm32_msk USB_OTG_DIEPCTL_CNAK = 0x4000000"
| "stm32_msk USB_OTG_DIEPCTL_SNAK = 0x8000000"
| "stm32_msk USB_OTG_DIEPCTL_SD0PID_SEVNFRM = 0x10000000"
| "stm32_msk USB_OTG_DIEPCTL_EPDIS = 0x40000000"
| "stm32_msk USB_OTG_DIEPCTL_EPENA = 0x80000000"
| "stm32_msk USB_OTG_DOEPCTL_USBAEP = 0x8000"
| "stm32_msk USB_OTG_DOEPCTL_CNAK = 0x4000000"
| "stm32_msk USB_OTG_DOEPCTL_SNAK = 0x8000000"
| "stm32_msk USB_OTG_DOEPCTL_SD0PID_SEVNFRM = 0x10000000"
| "stm32_msk USB_OTG_DOEPCTL_EPDIS = 0x40000000"
| "stm32_msk USB_OTG_DOEPCTL_EPENA = 0x80000000"
| "stm32_msk USB_OTG_DCFG_DAD_Msk = 0x7F0"
| "stm32_msk USB_OTG_GRSTCTL_RXFFLSH = 0x10"
| "stm32_msk USB_OTG_GRSTCTL_TXFFLSH = 0x20"
| "stm32_msk USB_OTG_GRSTCTL_TXFNUM = 0x7C0"
| "stm32_msk USB_OTG_PCGCCTL_STOPCLK = 0x1"
| "stm32_msk USB_OTG_GINTSTS_RXFLVL = 0x10"
| "stm32_msk USB_OTG_GINTSTS_USBSUSP = 0x800"
| "stm32_msk USB_OTG_GINTSTS_USBRST = 0x1000"
| "stm32_msk USB_OTG_GINTSTS_ENUMDNE = 0x2000"
| "stm32_msk USB_OTG_GINTSTS_IEPINT = 0x40000"
| "stm32_msk USB_OTG_GINTSTS_OEPINT = 0x80000"
| "stm32_msk USB_OTG_GINTSTS_SRQINT = 0x40000000"
| "stm32_msk USB_OTG_GINTSTS_WKUINT = 0x80000000"
| "stm32_msk USB_OTG_GAHBCFG_GINT = 0x1"
| "stm32_msk USB_OTG_DIEPTSIZ_XFRSIZ_Msk = 0x7FFFF"
| "stm32_msk USB_OTG_DOEPTSIZ_XFRSIZ_Msk = 0x7FFFF"
| "stm32_msk USB_OTG_GRXSTSP_EPNUM_Msk = 0xF"
| "stm32_msk USB_OTG_GRXSTSP_BCNT_Msk = 0x7FF0"
| "stm32_msk USB_OTG_GRXSTSP_PKTSTS_Msk = 0x1E0000"
| "stm32_msk USB_OTG_GRXFSIZ_RXFD = 0xFFFF"

fun stm32_pos :: "bitpos \<Rightarrow> nat" where
  "stm32_pos USB_OTG_DOEPCTL_EPTYP_Pos = 18"
| "stm32_pos USB_OTG_DIEPCTL_TXFNUM_Pos = 22"
| "stm32_pos USB_OTG_DCFG_DAD_Pos = 4"
| "stm32_pos USB_OTG_TX0FD_Pos = 16"
| "stm32_pos USB_OTG_GRSTCTL_TXFNUM_Pos = 6"
| "stm32_pos USB_OTG_DIEPTSIZ_PKTCNT_Pos = 19"
| "stm32_pos USB_OTG_DOEPTSIZ_PKTCNT_Pos = 19"
| "stm32_pos USB_OTG_DOEPTSIZ_STUPCNT_Pos = 29"
| "stm32_pos USB_OTG_GRXSTSP_PKTSTS_Pos = 17"
| "stm32_pos USB_OTG_GRXSTSP_BCNT_Pos = 4"

definition stm32 :: platform where
  "stm32 =
     \<lparr>msk = stm32_msk, pos = stm32_pos,
      DWC2_USB_OTG_FS_ENABLED = True, DWC2_USB_OTG_HS_ENABLED = False,
      STM32_USB_OTG_HS_USE_DMA = False, STM32_USB_OTG_CID_1x = True,
      DWC2_USB_OTG_FS_NUM_EP = 4, DWC2_USB_OTG_HS_NUM_EP = 6,
      DWC2_USB_OTG_FS_TOTAL_FIFO_SIZE = 1280, DWC2_USB_OTG_HS_TOTAL_FIFO_SIZE = 4096,
      DWC2_USB_OTG_FS_RX_FIFO_SIZE = 128, DWC2_USB_OTG_HS_RX_FIFO_SIZE = 512,
      USBDEV_CPU_DMA_ALIGNMENT = 4, ENOTSUP = 134, sizeof_usbopt_enable_t = 4\<rparr>"

definition fs_conf :: dwc2_usb_otg_fshs_config where
  "fs_conf = \<lparr>ctype = DWC2_USB_OTG_FS\<rparr>"

text \<open>
  The state before the driver has run: all registers zero, the contexts zeroed as the
  static arrays are, nothing logged.
\<close>

definition zeroed :: sys where
  "zeroed =
     \<lparr>regs = (\<lambda>r. 0), wlog = [], fifo_pos = 0,
      in_eps = (\<lambda>i. \<lparr>dir = USB_EP_DIR_OUT, type = USB_EP_TYPE_NONE, num = 0, len = 0\<rparr>),
      out_eps = (\<lambda>i. \<lparr>ep = \<lparr>dir = USB_EP_DIR_OUT, type = USB_EP_TYPE_NONE, num = 0, len = 0\<rparr>,
                       out_buf = 0\<rparr>),
      suspend = False, mem = (\<lambda>a. 0), events = []\<rparr>"

text \<open>
  A hardware that finishes every request at once: it clears the self-clearing request
  bits, and sets or clears the global NAK status as the driver asked.
\<close>

definition prompt_hw :: "regs \<Rightarrow> regs" where
  "prompt_hw r =
     (let dctl = r DCTL;
          dctl = (if dctl AND 0x80 \<noteq> 0 then (dctl AND NOT 0x80) OR 0x4 else dctl);
          dctl = (if dctl AND 0x100 \<noteq> 0 then dctl AND NOT (0x100 OR 0x4) else dctl);
          dctl = (if dctl AND 0x200 \<noteq> 0 then (dctl AND NOT 0x200) OR 0x8 else dctl);
          dctl = (if dctl AND 0x400 \<noteq> 0 then dctl AND NOT (0x400 OR 0x8) else dctl)
      in (\<lambda>x. case x of
            GRSTCTL \<Rightarrow> r GRSTCTL AND NOT 0x30
          | DCTL \<Rightarrow> dctl
          | DIEPCTL n \<Rightarrow> r (DIEPCTL n) AND NOT 0xC0000000
          | DOEPCTL n \<Rightarrow> r (DOEPCTL n) AND NOT 0xC0000000
          | _ \<Rightarrow> r x))"

subsection \<open>Notions used in the properties\<close>

text \<open>The pointer to the context of a direction at an index, as \<open>_get_ep\<close> computes it.\<close>

definition ep_at :: "usb_ep_dir \<Rightarrow> nat \<Rightarrow> ep_ref" where
  "ep_at d i = (if d = USB_EP_DIR_IN then In_ep i else Out_ep i)"

text \<open>What \<open>_usbdev_new_ep\<close> writes into the context that it found.\<close>

definition stamped :: "sys \<Rightarrow> ep_ref \<Rightarrow> nat \<Rightarrow> usb_ep_type \<Rightarrow> usb_ep_dir \<Rightarrow> u32 \<Rightarrow> sys" where
  "stamped s e idx t d ln = upd_ctx e (\<lambda>c. c\<lparr>num := idx, dir := d, type := t, len := ln\<rparr>) s"

text \<open>
  A request of the direction \<open>d\<close> for an interrupt, bulk or isochronous endpoint:
  \<open>USB_EP_TYPE_NONE\<close> marks a context as unassigned and is not a type to ask for.
\<close>

fun proper_request :: "usb_ep_dir \<Rightarrow> request \<Rightarrow> bool" where
  "proper_request d (t, d', ln) =
     (d' = d \<and> t \<noteq> USB_EP_TYPE_CONTROL \<and> t \<noteq> USB_EP_TYPE_NONE)"

text \<open>
  The transmit FIFO words that a call of \<open>_usbdev_new_ep\<close> is to allocate when it returns
  \<open>r\<close>: the word length of the request when the call claimed an IN endpoint other than
  endpoint 0, none otherwise.
\<close>

definition words_of_call :: "request \<Rightarrow> ep_ref option \<Rightarrow> nat" where
  "words_of_call rq r =
     (case rq of (t, d, ln) \<Rightarrow>
        if t \<noteq> USB_EP_TYPE_CONTROL \<and> d = USB_EP_DIR_IN \<and> r \<noteq> None
        then unat (tx_wordlen ln) else 0)"

text \<open>The endpoint is not active: the bit USBAEP of its control register is clear.\<close>

definition usbaep_clear :: "platform \<Rightarrow> sys \<Rightarrow> ep_ref \<Rightarrow> bool" where
  "usbaep_clear p s e =
     (if dir (ctx s e) = USB_EP_DIR_IN
      then rd s (DIEPCTL (num (ctx s e))) AND msk p USB_OTG_DIEPCTL_USBAEP = 0
      else rd s (DOEPCTL (num (ctx s e))) AND msk p USB_OTG_DOEPCTL_USBAEP = 0)"

text \<open>The assertion at the start of \<open>_usbdev_ep_xmit\<close> holds.\<close>

definition alignment_ok :: "platform \<Rightarrow> dwc2_usb_otg_fshs_config \<Rightarrow> nat \<Rightarrow> bool" where
  "alignment_ok p conf buf = (\<not> (uses_dma p conf \<and> buf mod USBDEV_CPU_DMA_ALIGNMENT p \<noteq> 0))"

text \<open>
  The fields of the register DOEPTSIZ do not overlap: the transfer size, the packet count
  (its mask \<open>pktcnt\<close> is not used by the driver) and the SETUP packet count.
\<close>

definition doeptsiz_layout :: "platform \<Rightarrow> u32 \<Rightarrow> bool" where
  "doeptsiz_layout p pktcnt =
     (push_bit (pos p USB_OTG_DOEPTSIZ_PKTCNT_Pos) 1 AND msk p USB_OTG_DOEPTSIZ_XFRSIZ_Msk = 0
      \<and> push_bit (pos p USB_OTG_DOEPTSIZ_STUPCNT_Pos) 1 AND msk p USB_OTG_DOEPTSIZ_XFRSIZ_Msk = 0
      \<and> msk p USB_OTG_DOEPTSIZ_XFRSIZ_Msk AND pktcnt = 0
      \<and> push_bit (pos p USB_OTG_DOEPTSIZ_STUPCNT_Pos) 1 AND pktcnt = 0
      \<and> push_bit (pos p USB_OTG_DOEPTSIZ_PKTCNT_Pos) 1 AND pktcnt
            = push_bit (pos p USB_OTG_DOEPTSIZ_PKTCNT_Pos) 1)"

text \<open>The register writes that were logged between two states.\<close>

definition new_writes :: "sys \<Rightarrow> sys \<Rightarrow> (reg \<times> u32) list" where
  "new_writes s s' = drop (length (wlog s)) (wlog s')"

text \<open>Between the two states the driver wrote a value with all of \<open>bits\<close> set to \<open>r\<close>.\<close>

definition wrote :: "sys \<Rightarrow> sys \<Rightarrow> reg \<Rightarrow> u32 \<Rightarrow> bool" where
  "wrote s s' r bits = list_ex (\<lambda>(r', v). r' = r \<and> v AND bits = bits) (new_writes s s')"

text \<open>The second state differs from the first in the register file only.\<close>

definition regs_only :: "sys \<Rightarrow> sys \<Rightarrow> bool" where
  "regs_only s s' =
     (wlog s' = wlog s \<and> fifo_pos s' = fifo_pos s \<and> in_eps s' = in_eps s
      \<and> out_eps s' = out_eps s \<and> suspend s' = suspend s \<and> mem s' = mem s
      \<and> events s' = events s)"

text \<open>
  The second state differs from the first in the register file, and in writes added to
  the log.
\<close>

definition hw_effect :: "sys \<Rightarrow> sys \<Rightarrow> bool" where
  "hw_effect s s' =
     ((\<exists>ws. wlog s' = wlog s @ ws) \<and> fifo_pos s' = fifo_pos s \<and> in_eps s' = in_eps s
      \<and> out_eps s' = out_eps s \<and> suspend s' = suspend s \<and> mem s' = mem s
      \<and> events s' = events s)"

text \<open>The hardware finishes every flush of a FIFO that the driver requests.\<close>

definition flush_acks :: "(regs \<Rightarrow> regs) \<Rightarrow> platform \<Rightarrow> bool" where
  "flush_acks hw p =
     (releases hw (\<lambda>r. r GRSTCTL AND msk p USB_OTG_GRSTCTL_RXFFLSH \<noteq> 0)
      \<and> releases hw (\<lambda>r. r GRSTCTL AND msk p USB_OTG_GRSTCTL_TXFFLSH \<noteq> 0))"

text \<open>The hardware raises interrupt flags: the status register becomes \<open>st\<close>.\<close>

definition raise_irq :: "u32 \<Rightarrow> regs \<Rightarrow> regs" where
  "raise_irq st r = r(GINTSTS := st)"

text \<open>
  What one run of \<open>_usbdev_esr\<close> lets an observer see, and the suspend flag after it, as
  a function of the interrupt status and of the suspend flag at entry.
\<close>

definition step_obs :: "platform \<Rightarrow> u32 \<Rightarrow> bool \<Rightarrow> obs list \<times> bool" where
  "step_obs p st b =
     (if st AND msk p USB_OTG_GINTSTS_ENUMDNE \<noteq> 0 then ([Delivered (Cb USBDEV_EVENT_RESET)], b)
      else if st AND msk p USB_OTG_GINTSTS_USBRST \<noteq> 0 then ([Reset_start_handled], False)
      else if st AND msk p USB_OTG_GINTSTS_SRQINT \<noteq> 0 then ([], b)
      else if st AND msk p USB_OTG_GINTSTS_USBSUSP \<noteq> 0 then
        (if \<not> b then ([Delivered (Cb USBDEV_EVENT_SUSPEND)], True) else ([], b))
      else if st AND msk p USB_OTG_GINTSTS_WKUINT \<noteq> 0 then
        (if b then ([Delivered (Cb USBDEV_EVENT_RESUME)], False) else ([], b))
      else ([], b))"

fun run_obs :: "platform \<Rightarrow> bool \<Rightarrow> u32 list \<Rightarrow> obs list" where
  "run_obs p b [] = []"
| "run_obs p b (st # sts) = fst (step_obs p st b) @ run_obs p (snd (step_obs p st b)) sts"

text \<open>The hardware puts the next status word into the register that \<open>_read_packet\<close> pops.\<close>

definition next_status :: "u32 \<Rightarrow> sys \<Rightarrow> sys" where
  "next_status st s = s\<lparr>regs := (regs s)(GRXSTSP := st)\<rparr>"

subsection \<open>Concrete inputs\<close>

text \<open>A build without \<open>STM32_USB_OTG_CID_1x\<close>, as the ESP32 and EFM32 builds are.\<close>

definition esp32 :: platform where
  "esp32 = stm32\<lparr>STM32_USB_OTG_CID_1x := False\<rparr>"

text \<open>The state after \<open>_configure_fifo\<close>: the cursor is at 128 + 16 of the 320 words.\<close>

definition fifo_ready :: sys where
  "fifo_ready = configure_fifo stm32 fs_conf zeroed"

definition in_requests :: "request list" where
  "in_requests = [(USB_EP_TYPE_BULK, USB_EP_DIR_IN, 64), (USB_EP_TYPE_INTERRUPT, USB_EP_DIR_IN, 200)]"

definition out_requests :: "request list" where
  "out_requests =
     [(USB_EP_TYPE_BULK, USB_EP_DIR_OUT, 64), (USB_EP_TYPE_INTERRUPT, USB_EP_DIR_OUT, 8),
      (USB_EP_TYPE_BULK, USB_EP_DIR_OUT, 64), (USB_EP_TYPE_ISOCHRONOUS, USB_EP_DIR_OUT, 64)]"

text \<open>The device is suspended and the host starts a bus reset.\<close>

definition suspended_reset_state :: sys where
  "suspended_reset_state = zeroed\<lparr>regs := (regs zeroed)(GINTSTS := 0x1000), suspend := True\<rparr>"

text \<open>
  Interrupts in a row: suspend, suspend again, wake-up, suspend, reset start, suspend.
\<close>

definition irq_sequence :: "u32 list" where
  "irq_sequence = [0x800, 0x800, 0x80000000, 0x800, 0x1000, 0x800]"

text \<open>The bulk IN endpoint 1 of 64 bytes is claimed; all registers are zero.\<close>

definition in1_state :: sys where
  "in1_state =
     zeroed\<lparr>in_eps := (in_eps zeroed)
              (1 := \<lparr>dir = USB_EP_DIR_IN, type = USB_EP_TYPE_BULK, num = 1, len = 64\<rparr>)\<rparr>"

text \<open>The value of a register after a call of \<open>_ep_activate\<close> that returned.\<close>

definition reg_after :: "sys result option \<Rightarrow> reg \<Rightarrow> u32 option" where
  "reg_after out r = (case out of Some (Returns s) \<Rightarrow> Some (rd s r) | _ \<Rightarrow> None)"

text \<open>The one-byte object behind the pointer of a \<open>USBOPT_ADDRESS\<close> request: address 5.\<close>

definition addr_value :: "nat \<Rightarrow> 8 word" where
  "addr_value i = (if i = 0 then 5 else 0)"

text \<open>
  Interrupts are enabled (GINT is set), the status register holds \<open>status\<close>, and the IN
  endpoint 1 has an interrupt pending.
\<close>

definition irq_state :: "u32 \<Rightarrow> sys" where
  "irq_state status =
     zeroed\<lparr>regs := (regs zeroed)(GINTSTS := status, GAHBCFG := 1, DAINT := 2)\<rparr>"

text \<open>
  The control endpoint 0 waits for a SETUP packet with its buffer at 0x20000000; the
  status word is a setup update (6) of 8 bytes for endpoint 0, and the eight bytes of a
  GET_DESCRIPTOR request are in the receive FIFO.
\<close>

definition setup_update_state :: sys where
  "setup_update_state =
     zeroed\<lparr>regs := (regs zeroed)
              (GRXSTSP := 0xC0080, RX_FIFO 0 := 0x01000680, RX_FIFO 1 := 0x00400000),
            out_eps := (out_eps zeroed)
              (0 := \<lparr>ep = \<lparr>dir = USB_EP_DIR_OUT, type = USB_EP_TYPE_CONTROL, num = 0, len = 64\<rparr>,
                     out_buf = 0x20000000\<rparr>)\<rparr>"

text \<open>The bulk OUT endpoint 1 of 64 bytes is claimed; \<open>doepctl\<close> is its control register.\<close>

definition out1_state :: "u32 \<Rightarrow> sys" where
  "out1_state doepctl =
     zeroed\<lparr>regs := (regs zeroed)(DOEPCTL 1 := doepctl),
            out_eps := (out_eps zeroed)
              (1 := \<lparr>ep = \<lparr>dir = USB_EP_DIR_OUT, type = USB_EP_TYPE_BULK, num = 1, len = 64\<rparr>,
                     out_buf = 0\<rparr>)\<rparr>"

section \<open>Properties\<close>

subsection \<open>Registers and bits\<close>

lemma rd_wr [simp]: "rd (wr r v s) r' = (if r' = r then v else rd s r')"
  by (simp add: rd_def wr_def)

lemma and_not_and_self [simp]: "(x AND NOT m) AND m = (0::u32)"
  by (simp add: bit_eq_iff bit_simps)

lemma or_and_self [simp]: "(x OR m) AND m = (m::u32)"
  by (simp add: bit_eq_iff bit_simps)

subsection \<open>Device options\<close>

lemma usbdev_set_address:
  "usbdev_set p s USBOPT_ADDRESS val 1 = Returns (- ENOTSUP p, set_address p (val 0) s)"
  by (simp add: usbdev_set_def)

lemma usbdev_set_attach:
  "usbdev_set p s USBOPT_ATTACH val (sizeof_usbopt_enable_t p)
     = Returns (int (sizeof_usbopt_enable_t p),
         if list_ex (\<lambda>i. val i \<noteq> 0) [0..<sizeof_usbopt_enable_t p]
         then usb_attach p s else usb_detach p s)"
  by (simp add: usbdev_set_def)

text \<open>
  C7, at the failing input. The claim: a recognised option of \<open>_usbdev_set\<close> returns the
  number of bytes consumed, and the device address option in particular writes the address
  and returns that number, not the code for an unsupported option. The code: with the
  option \<open>USBOPT_ADDRESS\<close> and the address 5 the call writes 5 into the address field of
  DCFG and returns \<open>-ENOTSUP\<close>, the value of an unrecognised option; the case does not
  assign \<open>res\<close>. The sibling case \<open>USBOPT_ATTACH\<close> returns the size of its argument.
\<close>

theorem usbdev_set_address_returns_enotsup:
  "usbdev_set stm32 zeroed USBOPT_ADDRESS addr_value 1
     = Returns (- ENOTSUP stm32, set_address stm32 5 zeroed)
   \<and> usbdev_set stm32 zeroed (USBOPT_OTHER 0) addr_value 1 = Returns (- ENOTSUP stm32, zeroed)
   \<and> rd (set_address stm32 5 zeroed) DCFG = 0x50
   \<and> usbdev_set stm32 zeroed USBOPT_ATTACH addr_value 4 = Returns (4, usb_attach stm32 zeroed)"
  by (simp add: usbdev_set_def stm32_def addr_value_def set_address_def rd_def wr_def
        zeroed_def upt_rec)

subsection \<open>The interrupt dispatcher\<close>

text \<open>
  C6, the claim as stated fails: with interrupts enabled at entry, the dispatcher returns
  with the bit GINT of GAHBCFG clear in each of its three branches: the receive FIFO is
  not empty (status 0x10), an endpoint interrupt is pending (status 0x40000), a device
  interrupt is pending (status 0x800, suspend). The upper layer here records the callback.
\<close>

theorem isr_common_gint_counterexample:
  "rd (irq_state 0x800) GAHBCFG AND msk stm32 USB_OTG_GAHBCFG_GINT = 1
   \<and> rd (isr_common upcall stm32 fs_conf (irq_state 0x10)) GAHBCFG
         AND msk stm32 USB_OTG_GAHBCFG_GINT = 0
   \<and> rd (isr_common upcall stm32 fs_conf (irq_state 0x40000)) GAHBCFG
         AND msk stm32 USB_OTG_GAHBCFG_GINT = 0
   \<and> rd (isr_common upcall stm32 fs_conf (irq_state 0x800)) GAHBCFG
         AND msk stm32 USB_OTG_GAHBCFG_GINT = 0"
  by (simp add: isr_common_def isr_ep_def irq_state_def zeroed_def stm32_def fs_conf_def
        uses_dma_def rd_def wr_def upcall_def Let_def)

text \<open>
  C6, amended: in every branch of the dispatcher that is taken for a status that is not
  zero, the bit GINT of GAHBCFG is clear when the dispatcher returns, whatever the
  callback of the upper layer does; with the status zero the dispatcher changes nothing.
\<close>

theorem isr_common_clears_gint:
  "(rd s GINTSTS \<noteq> 0
      \<longrightarrow> rd (isr_common up p conf s) GAHBCFG AND msk p USB_OTG_GAHBCFG_GINT = 0)
   \<and> (rd s GINTSTS = 0 \<longrightarrow> isr_common up p conf s = s)"
  by (simp add: isr_common_def Let_def)

theorem isr_common_clears_gint_witness:
  "rd (irq_state 0x800) GINTSTS \<noteq> 0
   \<and> rd (isr_common upcall stm32 fs_conf (irq_state 0x800)) GAHBCFG
         AND msk stm32 USB_OTG_GAHBCFG_GINT = 0
   \<and> rd zeroed GINTSTS = 0 \<and> isr_common upcall stm32 fs_conf zeroed = zeroed"
  using isr_common_clears_gint [of "irq_state 0x800" upcall stm32 fs_conf]
    isr_common_clears_gint [of zeroed upcall stm32 fs_conf]
  by (simp add: irq_state_def zeroed_def rd_def)

subsection \<open>Receiving a SETUP packet\<close>

lemma copy_rxfifo_8:
  "copy_rxfifo s b 8 = s\<lparr>mem := (mem s)(b := rd s (RX_FIFO 0), b + 4 := rd s (RX_FIFO 1))\<rparr>"
proof -
  have "unat (((8::u32) + 3) div 4) = 2" by simp
  then have "[0..<unat (((8::u32) + 3) div 4)] = [0, 1]" by (simp add: upt_rec)
  then show ?thesis
    by (simp add: copy_rxfifo_def Let_def rd_def)
qed

lemma pktsts_distinct:
  "DWC2_PKTSTS_SETUP_UPDT \<noteq> DWC2_PKTSTS_XFER_COMP"
  "DWC2_PKTSTS_SETUP_COMP \<noteq> DWC2_PKTSTS_DATA_UPDT"
  "DWC2_PKTSTS_SETUP_COMP \<noteq> DWC2_PKTSTS_SETUP_UPDT"
  by (simp_all add: DWC2_PKTSTS_SETUP_UPDT_def DWC2_PKTSTS_XFER_COMP_def
        DWC2_PKTSTS_SETUP_COMP_def DWC2_PKTSTS_DATA_UPDT_def)

lemma status_words:
  "pkt_status_of stm32 0xC0080 = DWC2_PKTSTS_SETUP_UPDT" "len_of stm32 0xC0080 = 8"
  "pkt_status_of esp32 0xC0080 = DWC2_PKTSTS_SETUP_UPDT" "len_of esp32 0xC0080 = 8"
  "pkt_status_of stm32 0x80000 = DWC2_PKTSTS_SETUP_COMP" "len_of stm32 0x80000 = 0"
  by (simp_all add: pkt_status_of_def len_of_def stm32_def esp32_def
        DWC2_PKTSTS_SETUP_UPDT_def DWC2_PKTSTS_SETUP_COMP_def)

text \<open>
  C9, the claim as stated fails: in a build without \<open>STM32_USB_OTG_CID_1x\<close>, when
  \<open>_read_packet\<close> on the control endpoint 0 pops a setup update of 8 bytes, it raises
  TR_COMPLETE for the endpoint at once, before any setup complete.
\<close>

theorem read_packet_setup_update_counterexample:
  "pkt_status_of esp32 (rd setup_update_state GRXSTSP) = DWC2_PKTSTS_SETUP_UPDT
   \<and> len_of esp32 (rd setup_update_state GRXSTSP) = 8
   \<and> events setup_update_state = []
   \<and> events (read_packet esp32 setup_update_state 0)
       = [Epcb (Out_ep 0) USBDEV_EVENT_TR_COMPLETE]"
  by (simp add: read_packet_def Let_def copy_rxfifo_8 upcall_def rd_def pktsts_distinct
        status_words setup_update_state_def zeroed_def)
     (simp add: esp32_def stm32_def)

text \<open>
  C9, amended: when \<open>_read_packet\<close> on the control endpoint 0 pops a setup update of 8
  bytes, it copies the two words of the payload from the receive FIFO into the registered
  buffer. In a build with \<open>STM32_USB_OTG_CID_1x\<close> it raises no event, and the setup
  complete that follows raises exactly one TR_COMPLETE for endpoint 0. In every other
  build the setup update raises TR_COMPLETE for endpoint 0 itself, and the setup
  complete that follows raises a second one.
\<close>

theorem read_packet_setup_stage:
  assumes "pkt_status_of p (rd s GRXSTSP) = DWC2_PKTSTS_SETUP_UPDT"
    and "len_of p (rd s GRXSTSP) = 8"
    and "pkt_status_of p st2 = DWC2_PKTSTS_SETUP_COMP"
    and "num (ep (out_eps s 0)) = 0"
  shows "(STM32_USB_OTG_CID_1x p \<longrightarrow>
            events (read_packet p s 0) = events s
            \<and> events (read_packet p (next_status st2 (read_packet p s 0)) 0)
                = events s @ [Epcb (Out_ep 0) USBDEV_EVENT_TR_COMPLETE])
       \<and> (\<not> STM32_USB_OTG_CID_1x p \<longrightarrow>
            events (read_packet p s 0) = events s @ [Epcb (Out_ep 0) USBDEV_EVENT_TR_COMPLETE]
            \<and> events (read_packet p (next_status st2 (read_packet p s 0)) 0)
                = events s @ [Epcb (Out_ep 0) USBDEV_EVENT_TR_COMPLETE,
                              Epcb (Out_ep 0) USBDEV_EVENT_TR_COMPLETE])
       \<and> mem (read_packet p s 0)
            = (mem s)(out_buf (out_eps s 0) := rd s (RX_FIFO 0),
                      out_buf (out_eps s 0) + 4 := rd s (RX_FIFO 1))"
  using assms
  by (simp add: read_packet_def Let_def copy_rxfifo_8 upcall_def next_status_def rd_def
        pktsts_distinct)

theorem read_packet_setup_stage_witness:
  "events (read_packet stm32 setup_update_state 0) = []
   \<and> events (read_packet stm32 (next_status 0x80000 (read_packet stm32 setup_update_state 0)) 0)
        = [Epcb (Out_ep 0) USBDEV_EVENT_TR_COMPLETE]
   \<and> mem (read_packet stm32 setup_update_state 0) 0x20000000 = 0x01000680
   \<and> mem (read_packet stm32 setup_update_state 0) 0x20000004 = 0x00400000"
proof -
  have a: "pkt_status_of stm32 (rd setup_update_state GRXSTSP) = DWC2_PKTSTS_SETUP_UPDT"
    and b: "len_of stm32 (rd setup_update_state GRXSTSP) = 8"
    and d: "num (ep (out_eps setup_update_state 0)) = 0"
    and e: "STM32_USB_OTG_CID_1x stm32"
    by (simp_all add: setup_update_state_def rd_def zeroed_def status_words)
       (simp add: stm32_def)
  from read_packet_setup_stage [OF a b status_words(5) d] e
  show ?thesis
    by (simp add: setup_update_state_def zeroed_def rd_def)
qed

subsection \<open>Transfers on an endpoint that is not active\<close>

lemma xmit_inactive:
  "usbaep_clear p s e \<Longrightarrow> alignment_ok p conf buf
     \<Longrightarrow> usbdev_ep_xmit p conf s e buf ln = Returns (- 1, s)"
  by (auto simp: usbdev_ep_xmit_def usbaep_clear_def alignment_ok_def Let_def split: if_splits)

lemma xmit_failure_only_inactive:
  "usbdev_ep_xmit p conf s e buf ln = Returns (r, s') \<Longrightarrow>
     (r = - 1 \<longleftrightarrow> usbaep_clear p s e) \<and> (r = - 1 \<longrightarrow> s' = s) \<and> (r \<noteq> - 1 \<longrightarrow> r = 0)"
  by (auto simp: usbdev_ep_xmit_def usbaep_clear_def Let_def
        split: if_splits option.splits ep_ref.splits)

text \<open>
  C3: \<open>_usbdev_ep_xmit\<close> returns the failure value -1 exactly when the bit USBAEP of the
  endpoint's control register is clear at entry, and then the state it returns in is the
  state at entry: no register is written (the register file and the log of writes are
  part of the state), and neither the FIFO nor the driver's data change. A call on an
  endpoint that is not active does return, provided the assertion on the alignment of the
  buffer in a DMA build holds, which comes before the test of the bit.
\<close>

theorem xmit_fails_iff_inactive:
  "(usbaep_clear p s e \<and> alignment_ok p conf buf
      \<longrightarrow> usbdev_ep_xmit p conf s e buf ln = Returns (- 1, s))
   \<and> (\<forall>r s'. usbdev_ep_xmit p conf s e buf ln = Returns (r, s')
        \<longrightarrow> (r = - 1 \<longleftrightarrow> usbaep_clear p s e)
            \<and> (r = - 1 \<longrightarrow> s' = s \<and> regs s' = regs s \<and> wlog s' = wlog s))"
  using xmit_inactive xmit_failure_only_inactive by blast

theorem xmit_fails_iff_inactive_witness:
  "usbaep_clear stm32 (out1_state 0) (Out_ep 1) \<and> alignment_ok stm32 fs_conf 0x20000100
   \<and> usbdev_ep_xmit stm32 fs_conf (out1_state 0) (Out_ep 1) 0x20000100 64
       = Returns (- 1, out1_state 0)
   \<and> \<not> usbaep_clear stm32 (out1_state 0x8000) (Out_ep 1)
   \<and> usbdev_ep_xmit stm32 fs_conf (out1_state 0x8000) (Out_ep 1) 0x20000100 64
       \<noteq> Returns (- 1, out1_state 0x8000)"
proof -
  have a: "usbaep_clear stm32 (out1_state 0) (Out_ep 1)"
    by (simp add: usbaep_clear_def out1_state_def zeroed_def ctx_def rd_def stm32_def)
  have b: "alignment_ok stm32 fs_conf 0x20000100"
    by (simp add: alignment_ok_def uses_dma_def stm32_def)
  have c: "\<not> usbaep_clear stm32 (out1_state 0x8000) (Out_ep 1)"
    by (simp add: usbaep_clear_def out1_state_def zeroed_def ctx_def rd_def stm32_def)
  have t1: "usbdev_ep_xmit stm32 fs_conf (out1_state 0) (Out_ep 1) 0x20000100 64
       = Returns (- 1, out1_state 0)"
    using xmit_fails_iff_inactive [of stm32 "out1_state 0" "Out_ep 1" fs_conf "0x20000100" 64]
      a b by blast
  have t2: "usbdev_ep_xmit stm32 fs_conf (out1_state 0x8000) (Out_ep 1) 0x20000100 64
       \<noteq> Returns (- 1, out1_state 0x8000)"
    using xmit_fails_iff_inactive
      [of stm32 "out1_state 0x8000" "Out_ep 1" fs_conf "0x20000100" 64] c by blast
  from a b c t1 t2 show ?thesis by blast
qed

subsection \<open>Transfers on an active OUT endpoint\<close>

lemma or3_and_mask:
  "a AND m = 0 \<Longrightarrow> c AND m = 0 \<Longrightarrow> ((a OR (b AND m)) OR c) AND m = b AND (m::u32)"
  by (simp add: word_ao_dist word_bw_assocs)

lemma or3_and_other:
  "a AND k = a \<Longrightarrow> m AND k = 0 \<Longrightarrow> c AND k = 0
     \<Longrightarrow> ((a OR (b AND m)) OR c) AND k = (a::u32)"
  by (simp add: word_ao_dist word_bw_assocs)

text \<open>
  C10: on an active endpoint of the OUT direction, \<open>_usbdev_ep_xmit\<close> returns 0 and the
  outcome does not depend on the length argument: the value written to DOEPTSIZ is packet
  count 1, the transfer size \<open>ep->len\<close> (cut to the width of the field) and, for endpoint
  0, SETUP count 1; the buffer pointer is stored in \<open>out_buf\<close> (in DOEPDMA in a DMA build)
  and the context is unchanged. With fields that do not overlap, the size field reads
  \<open>ep->len\<close> (when that fits the field) and the packet count field reads 1. The call
  returns when its assertions hold: the buffer is aligned in a DMA build and the endpoint
  has a type.
\<close>

theorem xmit_out_ignores_length:
  assumes "dir (ep (out_eps s i)) = USB_EP_DIR_OUT"
    and "rd s (DOEPCTL (num (ep (out_eps s i)))) AND msk p USB_OTG_DOEPCTL_USBAEP \<noteq> 0"
    and "type (ep (out_eps s i)) \<noteq> USB_EP_TYPE_NONE"
    and "alignment_ok p conf buf"
  shows "\<exists>s'. usbdev_ep_xmit p conf s (Out_ep i) buf ln = Returns (0, s')
     \<and> usbdev_ep_xmit p conf s (Out_ep i) buf ln' = Returns (0, s')
     \<and> rd s' (DOEPTSIZ (num (ep (out_eps s i))))
         = (push_bit (pos p USB_OTG_DOEPTSIZ_PKTCNT_Pos) 1
            OR (len (ep (out_eps s i)) AND msk p USB_OTG_DOEPTSIZ_XFRSIZ_Msk))
           OR (if num (ep (out_eps s i)) = 0
               then push_bit (pos p USB_OTG_DOEPTSIZ_STUPCNT_Pos) 1 else 0)
     \<and> (doeptsiz_layout p pktcnt \<longrightarrow>
          rd s' (DOEPTSIZ (num (ep (out_eps s i)))) AND msk p USB_OTG_DOEPTSIZ_XFRSIZ_Msk
            = len (ep (out_eps s i)) AND msk p USB_OTG_DOEPTSIZ_XFRSIZ_Msk
          \<and> (len (ep (out_eps s i)) AND msk p USB_OTG_DOEPTSIZ_XFRSIZ_Msk
                 = len (ep (out_eps s i))
               \<longrightarrow> rd s' (DOEPTSIZ (num (ep (out_eps s i))))
                     AND msk p USB_OTG_DOEPTSIZ_XFRSIZ_Msk = len (ep (out_eps s i)))
          \<and> rd s' (DOEPTSIZ (num (ep (out_eps s i)))) AND pktcnt
                = push_bit (pos p USB_OTG_DOEPTSIZ_PKTCNT_Pos) 1)
     \<and> (if uses_dma p conf then rd s' (DOEPDMA (num (ep (out_eps s i)))) = of_nat buf
         else out_buf (out_eps s' i) = buf)
     \<and> ep (out_eps s' i) = ep (out_eps s i)"
proof -
  let ?n = "num (ep (out_eps s i))"
  let ?v = "(push_bit (pos p USB_OTG_DOEPTSIZ_PKTCNT_Pos) 1
            OR (len (ep (out_eps s i)) AND msk p USB_OTG_DOEPTSIZ_XFRSIZ_Msk))
           OR (if ?n = 0 then push_bit (pos p USB_OTG_DOEPTSIZ_STUPCNT_Pos) 1 else 0)"
  have fields: "doeptsiz_layout p pktcnt \<Longrightarrow>
      ?v AND msk p USB_OTG_DOEPTSIZ_XFRSIZ_Msk
        = len (ep (out_eps s i)) AND msk p USB_OTG_DOEPTSIZ_XFRSIZ_Msk
      \<and> ?v AND pktcnt = push_bit (pos p USB_OTG_DOEPTSIZ_PKTCNT_Pos) 1"
    by (simp add: doeptsiz_layout_def or3_and_mask or3_and_other)
  from assms have "\<exists>s'. usbdev_ep_xmit p conf s (Out_ep i) buf ln = Returns (0, s')
       \<and> usbdev_ep_xmit p conf s (Out_ep i) buf ln' = Returns (0, s')
       \<and> rd s' (DOEPTSIZ ?n) = ?v
       \<and> (if uses_dma p conf then rd s' (DOEPDMA ?n) = of_nat buf
           else out_buf (out_eps s' i) = buf)
       \<and> ep (out_eps s' i) = ep (out_eps s i)"
    by (cases "type (ep (out_eps s i))")
       (auto simp: usbdev_ep_xmit_def Let_def ctx_def alignment_ok_def type_to_reg_def
          wr_def rd_def)
  then obtain s' where
    x: "usbdev_ep_xmit p conf s (Out_ep i) buf ln = Returns (0, s')"
       "usbdev_ep_xmit p conf s (Out_ep i) buf ln' = Returns (0, s')"
       "rd s' (DOEPTSIZ ?n) = ?v"
       "if uses_dma p conf then rd s' (DOEPDMA ?n) = of_nat buf else out_buf (out_eps s' i) = buf"
       "ep (out_eps s' i) = ep (out_eps s i)"
    by blast
  have f: "doeptsiz_layout p pktcnt \<longrightarrow>
          rd s' (DOEPTSIZ ?n) AND msk p USB_OTG_DOEPTSIZ_XFRSIZ_Msk
            = len (ep (out_eps s i)) AND msk p USB_OTG_DOEPTSIZ_XFRSIZ_Msk
          \<and> (len (ep (out_eps s i)) AND msk p USB_OTG_DOEPTSIZ_XFRSIZ_Msk
                 = len (ep (out_eps s i))
               \<longrightarrow> rd s' (DOEPTSIZ ?n) AND msk p USB_OTG_DOEPTSIZ_XFRSIZ_Msk
                     = len (ep (out_eps s i)))
          \<and> rd s' (DOEPTSIZ ?n) AND pktcnt
                = push_bit (pos p USB_OTG_DOEPTSIZ_PKTCNT_Pos) 1"
  proof
    assume lay: "doeptsiz_layout p pktcnt"
    have g: "rd s' (DOEPTSIZ ?n) AND msk p USB_OTG_DOEPTSIZ_XFRSIZ_Msk
               = len (ep (out_eps s i)) AND msk p USB_OTG_DOEPTSIZ_XFRSIZ_Msk"
            "rd s' (DOEPTSIZ ?n) AND pktcnt = push_bit (pos p USB_OTG_DOEPTSIZ_PKTCNT_Pos) 1"
      using fields [OF lay] unfolding x(3) by blast+
    show "rd s' (DOEPTSIZ ?n) AND msk p USB_OTG_DOEPTSIZ_XFRSIZ_Msk
            = len (ep (out_eps s i)) AND msk p USB_OTG_DOEPTSIZ_XFRSIZ_Msk
          \<and> (len (ep (out_eps s i)) AND msk p USB_OTG_DOEPTSIZ_XFRSIZ_Msk
                 = len (ep (out_eps s i))
               \<longrightarrow> rd s' (DOEPTSIZ ?n) AND msk p USB_OTG_DOEPTSIZ_XFRSIZ_Msk
                     = len (ep (out_eps s i)))
          \<and> rd s' (DOEPTSIZ ?n) AND pktcnt
                = push_bit (pos p USB_OTG_DOEPTSIZ_PKTCNT_Pos) 1"
      using g by metis
  qed
  from x f show ?thesis by blast
qed

theorem xmit_out_ignores_length_witness:
  "\<exists>s'. usbdev_ep_xmit stm32 fs_conf (out1_state 0x8000) (Out_ep 1) 0x20000100 512
          = Returns (0, s')
     \<and> usbdev_ep_xmit stm32 fs_conf (out1_state 0x8000) (Out_ep 1) 0x20000100 0
          = Returns (0, s')
     \<and> rd s' (DOEPTSIZ 1) = 0x80040
     \<and> rd s' (DOEPTSIZ 1) AND 0x7FFFF = 64
     \<and> rd s' (DOEPTSIZ 1) AND 0x1FF80000 = 0x80000
     \<and> out_buf (out_eps s' 1) = 0x20000100"
proof -
  let ?S = "out1_state 0x8000"
  let ?n = "num (ep (out_eps ?S 1))"
  let ?l = "len (ep (out_eps ?S 1))"
  have n: "?n = 1" and l: "?l = 64"
    by (simp_all add: out1_state_def zeroed_def)
  have a: "dir (ep (out_eps ?S 1)) = USB_EP_DIR_OUT"
    and b: "rd ?S (DOEPCTL ?n) AND msk stm32 USB_OTG_DOEPCTL_USBAEP \<noteq> 0"
    and c: "type (ep (out_eps ?S 1)) \<noteq> USB_EP_TYPE_NONE"
    and d: "alignment_ok stm32 fs_conf 0x20000100"
    and e: "doeptsiz_layout stm32 0x1FF80000"
    and dma: "\<not> uses_dma stm32 fs_conf"
    by (simp_all add: out1_state_def zeroed_def rd_def stm32_def alignment_ok_def uses_dma_def
          doeptsiz_layout_def)
  have k: "msk stm32 USB_OTG_DOEPTSIZ_XFRSIZ_Msk = 0x7FFFF"
    "pos stm32 USB_OTG_DOEPTSIZ_PKTCNT_Pos = 19"
    by (simp_all add: stm32_def)
  from xmit_out_ignores_length [OF a b c d, of 512 0 "0x1FF80000"] e dma
  obtain s' where
    x: "usbdev_ep_xmit stm32 fs_conf ?S (Out_ep 1) 0x20000100 512 = Returns (0, s')"
       "usbdev_ep_xmit stm32 fs_conf ?S (Out_ep 1) 0x20000100 0 = Returns (0, s')"
       "rd s' (DOEPTSIZ ?n)
          = (push_bit (pos stm32 USB_OTG_DOEPTSIZ_PKTCNT_Pos) 1
             OR (?l AND msk stm32 USB_OTG_DOEPTSIZ_XFRSIZ_Msk))
            OR (if ?n = 0 then push_bit (pos stm32 USB_OTG_DOEPTSIZ_STUPCNT_Pos) 1 else 0)"
       "rd s' (DOEPTSIZ ?n) AND msk stm32 USB_OTG_DOEPTSIZ_XFRSIZ_Msk
          = ?l AND msk stm32 USB_OTG_DOEPTSIZ_XFRSIZ_Msk"
       "rd s' (DOEPTSIZ ?n) AND 0x1FF80000 = push_bit (pos stm32 USB_OTG_DOEPTSIZ_PKTCNT_Pos) 1"
       "out_buf (out_eps s' 1) = 0x20000100"
    by auto
  have "rd s' (DOEPTSIZ 1) = 0x80040" "rd s' (DOEPTSIZ 1) AND 0x7FFFF = 64"
    "rd s' (DOEPTSIZ 1) AND 0x1FF80000 = 0x80000"
    using x(3,4,5) unfolding n l k by simp_all
  with x(1,2,6) show ?thesis by blast
qed

subsection \<open>The example platform\<close>

lemma stm32_fields [simp]:
  "msk stm32 = stm32_msk" "pos stm32 = stm32_pos"
  "DWC2_USB_OTG_FS_ENABLED stm32" "\<not> STM32_USB_OTG_HS_USE_DMA stm32"
  "DWC2_USB_OTG_FS_NUM_EP stm32 = 4" "DWC2_USB_OTG_FS_TOTAL_FIFO_SIZE stm32 = 1280"
  "DWC2_USB_OTG_FS_RX_FIFO_SIZE stm32 = 128"
  by (simp_all add: stm32_def)

lemma stm32_conf [simp]:
  "max_endpoints stm32 fs_conf = 4" "total_fifo_size stm32 fs_conf = 1280"
  "fifo_capacity stm32 fs_conf = 320" "\<not> uses_dma stm32 fs_conf"
  by (simp_all add: max_endpoints_def total_fifo_size_def fifo_capacity_def uses_dma_def fs_conf_def)

lemma fs_conf_ctype [simp]: "ctype fs_conf = DWC2_USB_OTG_FS"
  by (simp add: fs_conf_def)

subsection \<open>Claiming endpoints: the scan\<close>

declare find_unassigned.simps [simp del]

lemma ctx_upd_ctx [simp]: "ctx (upd_ctx e f s) e' = (if e' = e then f (ctx s e) else ctx s e')"
  by (cases e; cases e') (simp_all add: ctx_def upd_ctx_def)

lemma upd_ctx_fields [simp]:
  "regs (upd_ctx e f s) = regs s" "wlog (upd_ctx e f s) = wlog s"
  "fifo_pos (upd_ctx e f s) = fifo_pos s" "events (upd_ctx e f s) = events s"
  "suspend (upd_ctx e f s) = suspend s" "mem (upd_ctx e f s) = mem s"
  by (cases e; simp add: upd_ctx_def)+

lemma upd_ctx_upd_ctx [simp]: "upd_ctx e g (upd_ctx e f s) = upd_ctx e (\<lambda>c. g (f c)) s"
  by (cases e) (simp_all add: upd_ctx_def)

lemma index_of_ep_at [simp]: "index_of (ep_at d i) = i"
  by (simp add: index_of_def ep_at_def)

lemma ep_at_inj [simp]: "ep_at d i = ep_at d j \<longleftrightarrow> i = j"
  by (simp add: ep_at_def)

lemma get_ep_in_range: "idx < max_endpoints p conf \<Longrightarrow> get_ep p conf idx d = Some (ep_at d idx)"
  by (simp add: get_ep_def ep_at_def)

lemma find_unassigned_Some:
  "find_unassigned p conf s d k = Some (idx, e) \<Longrightarrow>
     k \<le> idx \<and> idx < max_endpoints p conf \<and> e = ep_at d idx
     \<and> type (ctx s e) = USB_EP_TYPE_NONE
     \<and> (\<forall>j. k \<le> j \<and> j < idx \<longrightarrow> type (ctx s (ep_at d j)) \<noteq> USB_EP_TYPE_NONE)"
proof (induction p conf s d k rule: find_unassigned.induct)
  case (1 p conf s d k)
  show ?case
  proof (cases "k < max_endpoints p conf")
    case False
    with "1.prems" show ?thesis by (simp add: find_unassigned.simps)
  next
    case True
    note lt = this
    show ?thesis
    proof (cases "type (ctx s (ep_at d k)) = USB_EP_TYPE_NONE")
      case True
      with lt "1.prems" show ?thesis
        by (auto simp: find_unassigned.simps [of p conf s d k] get_ep_in_range)
    next
      case False
      with lt "1.prems" have rec: "find_unassigned p conf s d (k + 1) = Some (idx, e)"
        by (simp add: find_unassigned.simps [of p conf s d k] get_ep_in_range)
      from "1.IH" [OF lt get_ep_in_range [OF lt] False rec]
      have ih: "k + 1 \<le> idx \<and> idx < max_endpoints p conf \<and> e = ep_at d idx
        \<and> type (ctx s e) = USB_EP_TYPE_NONE
        \<and> (\<forall>j. k + 1 \<le> j \<and> j < idx \<longrightarrow> type (ctx s (ep_at d j)) \<noteq> USB_EP_TYPE_NONE)" .
      have "\<And>j. k \<le> j \<Longrightarrow> j < idx \<Longrightarrow> type (ctx s (ep_at d j)) \<noteq> USB_EP_TYPE_NONE"
      proof -
        fix j assume "k \<le> j" "j < idx"
        then consider "j = k" | "k + 1 \<le> j" by linarith
        then show "type (ctx s (ep_at d j)) \<noteq> USB_EP_TYPE_NONE"
          using False ih \<open>j < idx\<close> by cases auto
      qed
      with ih show ?thesis by auto
    qed
  qed
qed

lemma find_unassigned_None:
  "find_unassigned p conf s d k = None \<Longrightarrow>
     \<forall>j. k \<le> j \<and> j < max_endpoints p conf \<longrightarrow> type (ctx s (ep_at d j)) \<noteq> USB_EP_TYPE_NONE"
proof (induction p conf s d k rule: find_unassigned.induct)
  case (1 p conf s d k)
  show ?case
  proof (cases "k < max_endpoints p conf")
    case False
    then show ?thesis by auto
  next
    case True
    note lt = this
    from lt "1.prems" have ne: "type (ctx s (ep_at d k)) \<noteq> USB_EP_TYPE_NONE"
      by (auto simp: find_unassigned.simps [of p conf s d k] get_ep_in_range split: if_splits)
    with lt "1.prems" have rec: "find_unassigned p conf s d (k + 1) = None"
      by (simp add: find_unassigned.simps [of p conf s d k] get_ep_in_range)
    from "1.IH" [OF lt get_ep_in_range [OF lt] ne rec]
    have ih: "\<forall>j. k + 1 \<le> j \<and> j < max_endpoints p conf
                \<longrightarrow> type (ctx s (ep_at d j)) \<noteq> USB_EP_TYPE_NONE" .
    show ?thesis
    proof (intro allI impI)
      fix j assume "k \<le> j \<and> j < max_endpoints p conf"
      then consider "j = k" | "k + 1 \<le> j \<and> j < max_endpoints p conf" by linarith
      then show "type (ctx s (ep_at d j)) \<noteq> USB_EP_TYPE_NONE"
        using ne ih by cases auto
    qed
  qed
qed

lemma new_ep_noncontrol:
  assumes "t \<noteq> USB_EP_TYPE_CONTROL"
  shows "usbdev_new_ep p conf s t d ln =
     (case find_unassigned p conf s d 1 of
        None \<Rightarrow> Returns (None, s)
      | Some (idx, e) \<Rightarrow>
          if d = USB_EP_DIR_IN then
            (case configure_tx_fifo p conf idx ln (stamped s e idx t d ln) of
               Returns s3 \<Rightarrow> Returns (Some e, s3)
             | AssertFail s3 \<Rightarrow> AssertFail s3
             | Undefined \<Rightarrow> Undefined)
          else Returns (Some e, stamped s e idx t d ln))"
proof (cases "find_unassigned p conf s d 1")
  case None
  with assms show ?thesis by (simp add: usbdev_new_ep_def)
next
  case (Some a)
  obtain idx e where a: "a = (idx, e)" by (cases a)
  from find_unassigned_Some [OF Some [unfolded a]]
  have "1 \<le> idx" "type (ctx s e) = USB_EP_TYPE_NONE" by auto
  with assms Some a show ?thesis
    by (simp add: usbdev_new_ep_def Let_def stamped_def)
qed

lemma new_ep_control:
  "usbdev_new_ep p conf s USB_EP_TYPE_CONTROL d ln =
     Returns (Some (ep_at d 0),
       if type (ctx s (ep_at d 0)) = USB_EP_TYPE_NONE
       then stamped s (ep_at d 0) 0 USB_EP_TYPE_CONTROL d ln
       else upd_ctx (ep_at d 0) (\<lambda>c. c\<lparr>num := 0\<rparr>) s)"
  by (simp add: usbdev_new_ep_def Let_def stamped_def ep_at_def)

lemma ctx_stamped [simp]:
  "ctx (stamped s e idx t d ln) e'
     = (if e' = e then \<lparr>dir = d, type = t, num = idx, len = ln\<rparr> else ctx s e')"
  by (simp add: stamped_def)

lemma stamped_fields [simp]:
  "regs (stamped s e idx t d ln) = regs s" "wlog (stamped s e idx t d ln) = wlog s"
  "fifo_pos (stamped s e idx t d ln) = fifo_pos s"
  by (simp_all add: stamped_def)

lemma configure_tx_fifo_ctx:
  "configure_tx_fifo p conf n ln s = Returns s' \<Longrightarrow> ctx s' e = ctx s e"
  by (auto simp: configure_tx_fifo_def Let_def wr_def ctx_def split: if_splits ep_ref.splits)

text \<open>What a call for a type other than control returns, and what it leaves behind.\<close>

lemma new_ep_noncontrol_returns:
  assumes t: "t \<noteq> USB_EP_TYPE_CONTROL"
    and r: "usbdev_new_ep p conf s t d ln = Returns (r, s')"
  shows "(r = None \<and> s' = s
          \<and> (\<forall>j. 1 \<le> j \<and> j < max_endpoints p conf
                \<longrightarrow> type (ctx s (ep_at d j)) \<noteq> USB_EP_TYPE_NONE))
       \<or> (\<exists>n. r = Some (ep_at d n) \<and> 1 \<le> n \<and> n < max_endpoints p conf
            \<and> type (ctx s (ep_at d n)) = USB_EP_TYPE_NONE
            \<and> (\<forall>j. 1 \<le> j \<and> j < n \<longrightarrow> type (ctx s (ep_at d j)) \<noteq> USB_EP_TYPE_NONE)
            \<and> (\<forall>e'. ctx s' e' = (if e' = ep_at d n
                       then \<lparr>dir = d, type = t, num = n, len = ln\<rparr> else ctx s e')))"
proof (cases "find_unassigned p conf s d 1")
  case None
  with r t have "r = None" "s' = s" by (simp_all add: new_ep_noncontrol)
  with find_unassigned_None [OF None] show ?thesis by simp
next
  case (Some a)
  obtain n e where a: "a = (n, e)" by (cases a)
  from find_unassigned_Some [OF Some [unfolded a]]
  have f: "1 \<le> n" "n < max_endpoints p conf" "e = ep_at d n"
    "type (ctx s (ep_at d n)) = USB_EP_TYPE_NONE"
    "\<forall>j. 1 \<le> j \<and> j < n \<longrightarrow> type (ctx s (ep_at d j)) \<noteq> USB_EP_TYPE_NONE"
    by auto
  have "r = Some (ep_at d n)
      \<and> (\<forall>e'. ctx s' e' = (if e' = ep_at d n
                  then \<lparr>dir = d, type = t, num = n, len = ln\<rparr> else ctx s e'))"
  proof (cases "d = USB_EP_DIR_IN")
    case False
    with r t Some a f(3) show ?thesis by (auto simp: new_ep_noncontrol)
  next
    case True
    with r t Some a f(3) obtain s3 where
      c: "configure_tx_fifo p conf n ln (stamped s (ep_at d n) n t d ln) = Returns s3"
      and "r = Some (ep_at d n)" "s' = s3"
      by (auto simp: new_ep_noncontrol split: result.splits)
    with configure_tx_fifo_ctx [OF c] show ?thesis by simp
  qed
  with f show ?thesis by blast
qed

lemma new_ep_defined: "usbdev_new_ep p conf s t d ln \<noteq> Undefined"
proof (cases "t = USB_EP_TYPE_CONTROL")
  case True
  then show ?thesis by (simp add: new_ep_control)
next
  case False
  show ?thesis
  proof (cases "find_unassigned p conf s d 1")
    case None
    with False show ?thesis by (simp add: new_ep_noncontrol)
  next
    case (Some a)
    obtain n e where a: "a = (n, e)" by (cases a)
    from find_unassigned_Some [OF Some [unfolded a]] have n: "n \<noteq> 0" by auto
    with False Some a show ?thesis
      by (auto simp: new_ep_noncontrol configure_tx_fifo_def Let_def
            split: if_splits result.splits)
  qed
qed

lemma new_ep_out_returns:
  "\<exists>r s'. usbdev_new_ep p conf s t USB_EP_DIR_OUT ln = Returns (r, s')"
proof (cases "t = USB_EP_TYPE_CONTROL")
  case True
  then show ?thesis by (simp add: new_ep_control)
next
  case False
  then show ?thesis
    by (cases "find_unassigned p conf s USB_EP_DIR_OUT 1") (auto simp: new_ep_noncontrol)
qed

subsection \<open>Claiming endpoints: the numbers returned\<close>

lemma claim_seq_increasing:
  assumes "list_all (proper_request d) reqs"
    and "\<forall>j. 1 \<le> j \<and> j \<le> k \<longrightarrow> type (ctx s (ep_at d j)) \<noteq> USB_EP_TYPE_NONE"
    and "claim_seq p conf s reqs = (calls, out)"
  shows "sorted_wrt (<) (returned_numbers calls)
     \<and> (\<forall>n \<in> set (returned_numbers calls).
           k < n \<and> n < max_endpoints p conf \<and> type (ctx s (ep_at d n)) = USB_EP_TYPE_NONE)"
  using assms
proof (induction reqs arbitrary: s k calls out)
  case Nil
  then show ?case by simp
next
  case (Cons rq reqs)
  obtain t d' ln where rq: "rq = (t, d', ln)" by (cases rq)
  from Cons.prems(1) rq have pr: "d' = d" "t \<noteq> USB_EP_TYPE_CONTROL" "t \<noteq> USB_EP_TYPE_NONE"
    and rest: "list_all (proper_request d) reqs"
    by simp_all
  show ?case
  proof (cases "usbdev_new_ep p conf s t d ln")
    case (AssertFail x)
    with Cons.prems(3) rq pr show ?thesis by simp
  next
    case Undefined
    with Cons.prems(3) rq pr show ?thesis by simp
  next
    case (Returns a)
    obtain r s' where a: "a = (r, s')" by (cases a)
    obtain calls' out' where cs: "claim_seq p conf s' reqs = (calls', out')"
      by (cases "claim_seq p conf s' reqs")
    from Cons.prems(3) rq pr Returns a cs
    have calls: "calls = (r, unat (fifo_pos s') - unat (fifo_pos s)) # calls'"
      by simp
    from new_ep_noncontrol_returns [OF pr(2) Returns [unfolded a]]
    consider (none) "r = None" "s' = s"
      | (some) n where "r = Some (ep_at d n)" "1 \<le> n" "n < max_endpoints p conf"
          "type (ctx s (ep_at d n)) = USB_EP_TYPE_NONE"
          "\<forall>j. 1 \<le> j \<and> j < n \<longrightarrow> type (ctx s (ep_at d j)) \<noteq> USB_EP_TYPE_NONE"
          "\<forall>e'. ctx s' e' = (if e' = ep_at d n
                       then \<lparr>dir = d, type = t, num = n, len = ln\<rparr> else ctx s e')"
      by blast
    then show ?thesis
    proof cases
      case none
      from Cons.IH [OF rest _ cs [unfolded none(2)], of k] Cons.prems(2)
      show ?thesis by (simp add: calls none)
    next
      case some
      have kn: "k < n"
      proof (rule ccontr)
        assume "\<not> k < n"
        with some(2) Cons.prems(2) have "type (ctx s (ep_at d n)) \<noteq> USB_EP_TYPE_NONE" by simp
        with some(4) show False by simp
      qed
      have inv: "\<forall>j. 1 \<le> j \<and> j \<le> n \<longrightarrow> type (ctx s' (ep_at d j)) \<noteq> USB_EP_TYPE_NONE"
      proof (intro allI impI)
        fix j assume j: "1 \<le> j \<and> j \<le> n"
        show "type (ctx s' (ep_at d j)) \<noteq> USB_EP_TYPE_NONE"
        proof (cases "j = n")
          case True
          with some(6) pr(3) show ?thesis by simp
        next
          case False
          with j some(5) some(6) show ?thesis by simp
        qed
      qed
      from Cons.IH [OF rest inv cs]
      have ih: "sorted_wrt (<) (returned_numbers calls')"
        "\<forall>m \<in> set (returned_numbers calls').
           n < m \<and> m < max_endpoints p conf \<and> type (ctx s' (ep_at d m)) = USB_EP_TYPE_NONE"
        by simp_all
      have "\<forall>m \<in> set (returned_numbers calls').
           k < m \<and> m < max_endpoints p conf \<and> type (ctx s (ep_at d m)) = USB_EP_TYPE_NONE"
      proof
        fix m assume "m \<in> set (returned_numbers calls')"
        with ih(2) have m: "n < m" "m < max_endpoints p conf"
          "type (ctx s' (ep_at d m)) = USB_EP_TYPE_NONE" by auto
        with some(6) have "type (ctx s (ep_at d m)) = USB_EP_TYPE_NONE" by simp
        with m kn show "k < m \<and> m < max_endpoints p conf
            \<and> type (ctx s (ep_at d m)) = USB_EP_TYPE_NONE" by simp
      qed
      with ih kn some(1,3,4) show ?thesis
        by (simp add: calls) 
    qed
  qed
qed

text \<open>
  C5: along a sequence of \<open>_usbdev_new_ep\<close> calls of one direction for types other than
  control, the endpoint numbers that the calls return are strictly increasing, and each
  was unassigned at the start of the sequence, so no number that has a type is returned
  again. A call for a type other than control that returns, returns the context of the
  direction with the lowest number from 1 whose type is unassigned, and stamps it with the
  number, the direction, the type and the length; it returns \<open>NULL\<close> and changes nothing
  when every context from 1 has a type. In the OUT direction every call returns; in the
  IN direction a call returns unless the assertion of the FIFO allocator fails.
\<close>

theorem claimed_numbers_strictly_increase:
  assumes "list_all (proper_request d) reqs"
    and "claim_seq p conf s0 reqs = (calls, out)"
  shows "sorted_wrt (<) (returned_numbers calls)
     \<and> (\<forall>n \<in> set (returned_numbers calls).
           1 \<le> n \<and> n < max_endpoints p conf
           \<and> type (ctx s0 (ep_at d n)) = USB_EP_TYPE_NONE)
     \<and> (\<forall>s t ln r s'.
           t \<noteq> USB_EP_TYPE_CONTROL \<and> usbdev_new_ep p conf s t d ln = Returns (r, s') \<longrightarrow>
             (r = None \<and> s' = s
              \<and> (\<forall>j. 1 \<le> j \<and> j < max_endpoints p conf
                    \<longrightarrow> type (ctx s (ep_at d j)) \<noteq> USB_EP_TYPE_NONE))
           \<or> (\<exists>n. r = Some (ep_at d n) \<and> 1 \<le> n \<and> n < max_endpoints p conf
                \<and> type (ctx s (ep_at d n)) = USB_EP_TYPE_NONE
                \<and> (\<forall>j. 1 \<le> j \<and> j < n \<longrightarrow> type (ctx s (ep_at d j)) \<noteq> USB_EP_TYPE_NONE)
                \<and> (\<forall>e'. ctx s' e' = (if e' = ep_at d n
                           then \<lparr>dir = d, type = t, num = n, len = ln\<rparr> else ctx s e'))))
     \<and> (\<forall>s t ln. usbdev_new_ep p conf s t d ln \<noteq> Undefined
           \<and> (d = USB_EP_DIR_OUT \<longrightarrow> (\<exists>r s'. usbdev_new_ep p conf s t d ln = Returns (r, s'))))"
proof -
  have "\<forall>j. 1 \<le> j \<and> j \<le> 0 \<longrightarrow> type (ctx s0 (ep_at d j)) \<noteq> USB_EP_TYPE_NONE"
    by simp
  from claim_seq_increasing [OF assms(1) this assms(2)]
  have a: "sorted_wrt (<) (returned_numbers calls)"
    and b: "\<forall>n \<in> set (returned_numbers calls).
           1 \<le> n \<and> n < max_endpoints p conf
           \<and> type (ctx s0 (ep_at d n)) = USB_EP_TYPE_NONE"
    by auto
  show ?thesis
    using a b new_ep_noncontrol_returns [of _ p conf _ d] new_ep_defined [of p conf _ _ d]
      new_ep_out_returns [of p conf]
    by (intro conjI allI impI) blast+
qed

lemma out_seq:
  "\<exists>calls s. claim_seq stm32 fs_conf zeroed out_requests = (calls, Returns s)
     \<and> map fst calls = [Some (Out_ep 1), Some (Out_ep 2), Some (Out_ep 3), None]"
  by (simp add: out_requests_def new_ep_noncontrol find_unassigned.simps get_ep_def
        stamped_def zeroed_def ctx_def upd_ctx_def)

theorem claimed_numbers_strictly_increase_witness:
  "list_all (proper_request USB_EP_DIR_OUT) out_requests
   \<and> returned_numbers (fst (claim_seq stm32 fs_conf zeroed out_requests)) = [1, 2, 3]
   \<and> sorted_wrt (<) (returned_numbers (fst (claim_seq stm32 fs_conf zeroed out_requests)))"
proof -
  have pr: "list_all (proper_request USB_EP_DIR_OUT) out_requests"
    by (simp add: out_requests_def)
  from out_seq obtain calls s where
    cs: "claim_seq stm32 fs_conf zeroed out_requests = (calls, Returns s)"
    and rs: "map fst calls = [Some (Out_ep 1), Some (Out_ep 2), Some (Out_ep 3), None]"
    by (elim exE conjE)
  from rs have "returned_numbers calls = [1, 2, 3]"
    by (auto simp: index_of_def)
  with claimed_numbers_strictly_increase [OF pr cs] pr cs show ?thesis
    by simp
qed

subsection \<open>The FIFO allocator\<close>

lemma unat_div4_bound: "unat ((x::u32) div 4) < 2 ^ 30"
proof -
  have "unat x < 2 ^ 32" using unsigned_less [of x, where ?'a = nat] by simp
  then have "unat x div 4 < 2 ^ 30" by simp
  then show ?thesis by (simp add: unat_div)
qed

lemma fifo_capacity_bound: "fifo_capacity p conf < 2 ^ 30"
  unfolding fifo_capacity_def by (rule unat_div4_bound)

lemma tx_wordlen_bound: "unat (tx_wordlen ln) < 2 ^ 30"
  using unat_div4_bound [of "ln + 3"]
  by (simp add: tx_wordlen_def DWC2_USB_OTG_FIFO_MIN_WORD_SIZE_def)

lemma tx_wordlen_rounds:
  assumes "unat ln + 3 < 2 ^ 32"
  shows "unat (tx_wordlen ln) = max 16 ((unat ln + 3) div 4)"
proof -
  have u: "unat (ln + 3) = unat ln + 3"
    using assms by (simp add: unat_word_ariths)
  show ?thesis
  proof (cases "ln < 64")
    case True
    then have "unat ln < 64" by (simp add: word_less_nat_alt)
    then have "(unat ln + 3) div 4 \<le> 16" by simp
    with True show ?thesis
      by (simp add: tx_wordlen_def DWC2_USB_OTG_FIFO_MIN_WORD_SIZE_def max_def)
  next
    case False
    then have "64 \<le> unat ln" by (simp add: word_less_nat_alt)
    with False u show ?thesis
      by (simp add: tx_wordlen_def DWC2_USB_OTG_FIFO_MIN_WORD_SIZE_def max_def unat_div)
  qed
qed

text \<open>Only for the three largest lengths the rounding wraps around, to a bank of no words.\<close>

lemma tx_wordlen_wraps: "tx_wordlen 0xFFFFFFFD = 0" "tx_wordlen 0xFFFFFFFF = 0"
  by (simp_all add: tx_wordlen_def DWC2_USB_OTG_FIFO_MIN_WORD_SIZE_def)

lemma assert_no_wrap:
  assumes "unat (fifo_pos s) \<le> fifo_capacity p conf"
  shows "(fifo_pos s + tx_wordlen ln \<le> total_fifo_size p conf div 4)
     \<longleftrightarrow> unat (fifo_pos s) + unat (tx_wordlen ln) \<le> fifo_capacity p conf"
    and "unat (fifo_pos s + tx_wordlen ln) = unat (fifo_pos s) + unat (tx_wordlen ln)"
proof -
  have "unat (fifo_pos s) + unat (tx_wordlen ln) < 2 ^ 32"
    using assms fifo_capacity_bound [of p conf] tx_wordlen_bound [of ln] by simp
  then show u: "unat (fifo_pos s + tx_wordlen ln) = unat (fifo_pos s) + unat (tx_wordlen ln)"
    by (simp add: unat_word_ariths)
  show "(fifo_pos s + tx_wordlen ln \<le> total_fifo_size p conf div 4)
     \<longleftrightarrow> unat (fifo_pos s) + unat (tx_wordlen ln) \<le> fifo_capacity p conf"
    by (simp add: word_le_nat_alt u fifo_capacity_def)
qed

lemma configure_tx_fifo_cases:
  assumes "unat (fifo_pos s) \<le> fifo_capacity p conf" and "n \<noteq> 0"
  shows "configure_tx_fifo p conf n ln s =
     (if unat (fifo_pos s) + unat (tx_wordlen ln) \<le> fifo_capacity p conf
      then Returns ((wr (DIEPTXF (n - 1))
              (push_bit (pos p USB_OTG_TX0FD_Pos) (tx_wordlen ln) OR fifo_pos s) s)
            \<lparr>fifo_pos := fifo_pos s + tx_wordlen ln\<rparr>)
      else AssertFail s)"
  using assms assert_no_wrap(1) [OF assms(1), of ln]
  by (simp add: configure_tx_fifo_def Let_def)

text \<open>\<open>_configure_fifo\<close> leaves the cursor within the capacity when the sizes of the build fit.\<close>

lemma configure_fifo_within_capacity:
  assumes "unat (if ctype conf = DWC2_USB_OTG_FS then DWC2_USB_OTG_FS_RX_FIFO_SIZE p
                 else DWC2_USB_OTG_HS_RX_FIFO_SIZE p) + 16 \<le> fifo_capacity p conf"
  shows "unat (fifo_pos (configure_fifo p conf s)) \<le> fifo_capacity p conf"
proof -
  let ?rx = "if ctype conf = DWC2_USB_OTG_FS then DWC2_USB_OTG_FS_RX_FIFO_SIZE p
             else DWC2_USB_OTG_HS_RX_FIFO_SIZE p"
  from assms fifo_capacity_bound [of p conf] have "unat ?rx + 16 < 2 ^ 32" by simp
  then have "unat (?rx + 16) = unat ?rx + 16" by (simp add: unat_word_ariths)
  with assms show ?thesis
    by (simp add: configure_fifo_def Let_def DWC2_USB_OTG_FIFO_MIN_WORD_SIZE_def)
qed

lemma new_ep_fifo_returns:
  assumes inv: "unat (fifo_pos s) \<le> fifo_capacity p conf"
    and r: "usbdev_new_ep p conf s t d ln = Returns (r, s')"
  shows "unat (fifo_pos s') = unat (fifo_pos s) + words_of_call (t, d, ln) r
     \<and> unat (fifo_pos s') \<le> fifo_capacity p conf"
proof (cases "t = USB_EP_TYPE_CONTROL")
  case True
  with r inv show ?thesis
    by (auto simp: new_ep_control words_of_call_def split: if_splits)
next
  case False
  show ?thesis
  proof (cases "find_unassigned p conf s d 1")
    case None
    with r False inv show ?thesis by (simp add: new_ep_noncontrol words_of_call_def)
  next
    case (Some a)
    obtain n e where a: "a = (n, e)" by (cases a)
    from find_unassigned_Some [OF Some [unfolded a]] have n: "n \<noteq> 0" by auto
    have inv': "unat (fifo_pos (stamped s e n t d ln)) \<le> fifo_capacity p conf"
      using inv by simp
    show ?thesis
    proof (cases "d = USB_EP_DIR_IN")
      case False
      with r \<open>t \<noteq> USB_EP_TYPE_CONTROL\<close> Some a inv show ?thesis
        by (auto simp: new_ep_noncontrol words_of_call_def)
    next
      case True
      with r \<open>t \<noteq> USB_EP_TYPE_CONTROL\<close> Some a inv n
        assert_no_wrap(2) [OF inv, of ln]
      show ?thesis
        by (auto simp: new_ep_noncontrol words_of_call_def configure_tx_fifo_cases
              split: if_splits)
    qed
  qed
qed

lemma new_ep_fifo_abort:
  assumes inv: "unat (fifo_pos s) \<le> fifo_capacity p conf"
    and r: "usbdev_new_ep p conf s t d ln = AssertFail s'"
  shows "t \<noteq> USB_EP_TYPE_CONTROL \<and> d = USB_EP_DIR_IN
     \<and> fifo_capacity p conf < unat (fifo_pos s) + unat (tx_wordlen ln)
     \<and> regs s' = regs s \<and> wlog s' = wlog s \<and> fifo_pos s' = fifo_pos s"
proof (cases "t = USB_EP_TYPE_CONTROL")
  case True
  with r show ?thesis by (simp add: new_ep_control)
next
  case False
  show ?thesis
  proof (cases "find_unassigned p conf s d 1")
    case None
    with r False show ?thesis by (simp add: new_ep_noncontrol)
  next
    case (Some a)
    obtain n e where a: "a = (n, e)" by (cases a)
    from find_unassigned_Some [OF Some [unfolded a]] have n: "n \<noteq> 0" by auto
    have inv': "unat (fifo_pos (stamped s e n t d ln)) \<le> fifo_capacity p conf"
      using inv by simp
    from r False Some a inv n show ?thesis
      by (auto simp: new_ep_noncontrol configure_tx_fifo_cases split: if_splits)
  qed
qed

lemma claim_seq_fifo:
  assumes "unat (fifo_pos s0) \<le> fifo_capacity p conf"
    and "claim_seq p conf s0 reqs = (calls, Returns s)"
  shows "unat (fifo_pos s) = unat (fifo_pos s0) + sum_list (map snd calls)
     \<and> unat (fifo_pos s) \<le> fifo_capacity p conf
     \<and> length calls = length reqs
     \<and> list_all2 (\<lambda>rq c. snd c = words_of_call rq (fst c)) reqs calls"
  using assms
proof (induction reqs arbitrary: s0 calls)
  case Nil
  then show ?case by simp
next
  case (Cons rq reqs)
  obtain t d ln where rq: "rq = (t, d, ln)" by (cases rq)
  show ?case
  proof (cases "usbdev_new_ep p conf s0 t d ln")
    case (AssertFail x)
    with Cons.prems(2) rq show ?thesis by simp
  next
    case Undefined
    with Cons.prems(2) rq show ?thesis by simp
  next
    case (Returns a)
    obtain r s1 where a: "a = (r, s1)" by (cases a)
    obtain calls' out' where cs: "claim_seq p conf s1 reqs = (calls', out')"
      by (cases "claim_seq p conf s1 reqs")
    from Cons.prems(2) rq Returns a cs
    have calls: "calls = (r, unat (fifo_pos s1) - unat (fifo_pos s0)) # calls'"
      and out': "out' = Returns s"
      by simp_all
    from new_ep_fifo_returns [OF Cons.prems(1) Returns [unfolded a]]
    have step: "unat (fifo_pos s1) = unat (fifo_pos s0) + words_of_call (t, d, ln) r"
      "unat (fifo_pos s1) \<le> fifo_capacity p conf" by simp_all
    from Cons.IH [OF step(2) cs [unfolded out']] step
    show ?thesis by (simp add: calls rq)
  qed
qed

text \<open>
  What the allocator keeps: along every sequence of \<open>_usbdev_new_ep\<close> calls that return,
  started with the cursor within the capacity (as \<open>_configure_fifo\<close> leaves it), the
  cursor is the sum of the words in front of it at the start and of the words allocated,
  and never exceeds the capacity of the FIFO in words. A call allocates the word length
  that \<open>_configure_tx_fifo\<close> computes when it claims an IN endpoint other than endpoint
  0, and nothing otherwise; for a length whose rounding does not wrap around in \<open>size_t\<close>
  that is the length rounded up to words and raised to 16. From every state so reached, a
  call whose computed word length does not fit fails its assertion with the register
  file, the log of register writes and the cursor as they were before the call.
\<close>

lemma allocation_within_capacity:
  assumes "unat (fifo_pos s0) \<le> fifo_capacity p conf"
    and "claim_seq p conf s0 reqs = (calls, Returns s)"
  shows "unat (fifo_pos s0) + sum_list (map snd calls) \<le> fifo_capacity p conf
     \<and> unat (fifo_pos s) = unat (fifo_pos s0) + sum_list (map snd calls)
     \<and> list_all2 (\<lambda>rq c. snd c = words_of_call rq (fst c)) reqs calls
     \<and> (\<forall>ln. unat ln + 3 < 2 ^ 32 \<longrightarrow> unat (tx_wordlen ln) = max 16 ((unat ln + 3) div 4))
     \<and> (\<forall>t d ln.
           case usbdev_new_ep p conf s t d ln of
             Returns (r, s') \<Rightarrow>
               unat (fifo_pos s') = unat (fifo_pos s) + words_of_call (t, d, ln) r
               \<and> unat (fifo_pos s') \<le> fifo_capacity p conf
           | AssertFail s' \<Rightarrow>
               t \<noteq> USB_EP_TYPE_CONTROL \<and> d = USB_EP_DIR_IN
               \<and> fifo_capacity p conf < unat (fifo_pos s) + unat (tx_wordlen ln)
               \<and> regs s' = regs s \<and> wlog s' = wlog s \<and> fifo_pos s' = fifo_pos s
           | Undefined \<Rightarrow> False)
     \<and> (\<forall>t ln.
           t \<noteq> USB_EP_TYPE_CONTROL \<and> find_unassigned p conf s USB_EP_DIR_IN 1 \<noteq> None
           \<and> fifo_capacity p conf < unat (fifo_pos s) + unat (tx_wordlen ln)
           \<longrightarrow> (\<exists>s'. usbdev_new_ep p conf s t USB_EP_DIR_IN ln = AssertFail s'))"
proof -
  from claim_seq_fifo [OF assms]
  have seq: "unat (fifo_pos s) = unat (fifo_pos s0) + sum_list (map snd calls)"
    "unat (fifo_pos s) \<le> fifo_capacity p conf"
    "list_all2 (\<lambda>rq c. snd c = words_of_call rq (fst c)) reqs calls"
    by simp_all
  have next_call: "case usbdev_new_ep p conf s t d ln of
             Returns (r, s') \<Rightarrow>
               unat (fifo_pos s') = unat (fifo_pos s) + words_of_call (t, d, ln) r
               \<and> unat (fifo_pos s') \<le> fifo_capacity p conf
           | AssertFail s' \<Rightarrow>
               t \<noteq> USB_EP_TYPE_CONTROL \<and> d = USB_EP_DIR_IN
               \<and> fifo_capacity p conf < unat (fifo_pos s) + unat (tx_wordlen ln)
               \<and> regs s' = regs s \<and> wlog s' = wlog s \<and> fifo_pos s' = fifo_pos s
           | Undefined \<Rightarrow> False" for t d ln
  proof (cases "usbdev_new_ep p conf s t d ln")
    case (Returns a)
    obtain r s' where a: "a = (r, s')" by (cases a)
    from new_ep_fifo_returns [OF seq(2) Returns [unfolded a]] Returns a
    show ?thesis by simp
  next
    case (AssertFail s')
    from new_ep_fifo_abort [OF seq(2) AssertFail] AssertFail show ?thesis by simp
  next
    case Undefined
    with new_ep_defined show ?thesis by blast
  qed
  have must_fail: "\<exists>s'. usbdev_new_ep p conf s t USB_EP_DIR_IN ln = AssertFail s'"
    if t: "t \<noteq> USB_EP_TYPE_CONTROL"
      and f: "find_unassigned p conf s USB_EP_DIR_IN 1 \<noteq> None"
      and big: "fifo_capacity p conf < unat (fifo_pos s) + unat (tx_wordlen ln)" for t ln
  proof -
    from f obtain n e where fu: "find_unassigned p conf s USB_EP_DIR_IN 1 = Some (n, e)"
      by auto
    from find_unassigned_Some [OF fu] have n: "n \<noteq> 0" by auto
    from t fu n big seq(2) show ?thesis
      by (simp add: new_ep_noncontrol configure_tx_fifo_cases)
  qed
  have h1: "unat (fifo_pos s0) + sum_list (map snd calls) \<le> fifo_capacity p conf"
    using seq(1,2) by simp
  have h4: "\<forall>ln. unat ln + 3 < 2 ^ 32
              \<longrightarrow> unat (tx_wordlen ln) = max 16 ((unat ln + 3) div 4)"
    using tx_wordlen_rounds by blast
  have h5: "\<forall>t d ln.
           case usbdev_new_ep p conf s t d ln of
             Returns (r, s') \<Rightarrow>
               unat (fifo_pos s') = unat (fifo_pos s) + words_of_call (t, d, ln) r
               \<and> unat (fifo_pos s') \<le> fifo_capacity p conf
           | AssertFail s' \<Rightarrow>
               t \<noteq> USB_EP_TYPE_CONTROL \<and> d = USB_EP_DIR_IN
               \<and> fifo_capacity p conf < unat (fifo_pos s) + unat (tx_wordlen ln)
               \<and> regs s' = regs s \<and> wlog s' = wlog s \<and> fifo_pos s' = fifo_pos s
           | Undefined \<Rightarrow> False"
    using next_call by blast
  have h6: "\<forall>t ln.
           t \<noteq> USB_EP_TYPE_CONTROL \<and> find_unassigned p conf s USB_EP_DIR_IN 1 \<noteq> None
           \<and> fifo_capacity p conf < unat (fifo_pos s) + unat (tx_wordlen ln)
           \<longrightarrow> (\<exists>s'. usbdev_new_ep p conf s t USB_EP_DIR_IN ln = AssertFail s')"
    using must_fail by blast
  show ?thesis
    by (intro conjI) (fact h1 seq(1) seq(3) h4 h5 h6)+
qed

lemma fifo_ready_pos: "fifo_pos fifo_ready = 144"
  by (simp add: fifo_ready_def configure_fifo_def Let_def
        DWC2_USB_OTG_FIFO_MIN_WORD_SIZE_def wr_def)

lemma in_seq:
  "\<exists>calls s. claim_seq stm32 fs_conf fifo_ready in_requests = (calls, Returns s)
     \<and> calls = [(Some (In_ep 1), 16), (Some (In_ep 2), 50)]
     \<and> fifo_pos s = 210 
     \<and> find_unassigned stm32 fs_conf s USB_EP_DIR_IN 1 \<noteq> None"
  by (simp add: in_requests_def new_ep_noncontrol find_unassigned.simps get_ep_def
        stamped_def fifo_ready_def configure_fifo_def Let_def zeroed_def ctx_def upd_ctx_def
        configure_tx_fifo_def tx_wordlen_def DWC2_USB_OTG_FIFO_MIN_WORD_SIZE_def wr_def rd_def)

lemma allocation_within_capacity_example:
  "unat (fifo_pos fifo_ready) \<le> fifo_capacity stm32 fs_conf
   \<and> (\<exists>calls s. claim_seq stm32 fs_conf fifo_ready in_requests = (calls, Returns s)
         \<and> map snd calls = [16, 50]
         \<and> unat (fifo_pos s) = 144 + 16 + 50
         \<and> unat (fifo_pos fifo_ready) + sum_list (map snd calls) \<le> fifo_capacity stm32 fs_conf
         \<and> unat (tx_wordlen 1023) = 256
         \<and> (\<exists>s'. usbdev_new_ep stm32 fs_conf s USB_EP_TYPE_BULK USB_EP_DIR_IN 1023
                    = AssertFail s'
                \<and> regs s' = regs s \<and> wlog s' = wlog s \<and> fifo_pos s' = fifo_pos s))"
proof -
  have inv: "unat (fifo_pos fifo_ready) \<le> fifo_capacity stm32 fs_conf"
    by (simp add: fifo_ready_pos)
  from in_seq obtain calls s where
    cs: "claim_seq stm32 fs_conf fifo_ready in_requests = (calls, Returns s)"
    and c: "calls = [(Some (In_ep 1), 16), (Some (In_ep 2), 50)]"
    and fp: "fifo_pos s = 210"
    and free: "find_unassigned stm32 fs_conf s USB_EP_DIR_IN 1 \<noteq> None"
    by (elim exE conjE)
  note t = allocation_within_capacity [OF inv cs]
  have w: "unat (tx_wordlen 1023) = 256"
    by (simp add: tx_wordlen_def DWC2_USB_OTG_FIFO_MIN_WORD_SIZE_def)
  have big: "fifo_capacity stm32 fs_conf < unat (fifo_pos s) + unat (tx_wordlen 1023)"
    by (simp add: fp w)
  from t free big obtain s' where
    f: "usbdev_new_ep stm32 fs_conf s USB_EP_TYPE_BULK USB_EP_DIR_IN 1023 = AssertFail s'"
    by blast
  from t have "case usbdev_new_ep stm32 fs_conf s USB_EP_TYPE_BULK USB_EP_DIR_IN 1023 of
             Returns (r, s') \<Rightarrow>
               unat (fifo_pos s') = unat (fifo_pos s)
                  + words_of_call (USB_EP_TYPE_BULK, USB_EP_DIR_IN, 1023) r
               \<and> unat (fifo_pos s') \<le> fifo_capacity stm32 fs_conf
           | AssertFail s' \<Rightarrow>
               USB_EP_TYPE_BULK \<noteq> USB_EP_TYPE_CONTROL \<and> USB_EP_DIR_IN = USB_EP_DIR_IN
               \<and> fifo_capacity stm32 fs_conf < unat (fifo_pos s) + unat (tx_wordlen 1023)
               \<and> regs s' = regs s \<and> wlog s' = wlog s \<and> fifo_pos s' = fifo_pos s
           | Undefined \<Rightarrow> False"
    by blast
  with f have g: "regs s' = regs s \<and> wlog s' = wlog s \<and> fifo_pos s' = fifo_pos s"
    by simp
  from t have h: "unat (fifo_pos fifo_ready) + sum_list (map snd calls)
      \<le> fifo_capacity stm32 fs_conf" by blast
  from inv cs c fp h w f g show ?thesis
    by (intro conjI exI [of _ calls] exI [of _ s] exI [of _ s']) simp_all
qed

text \<open>
  C1, at the failing input. The claim: every request is rounded up to a word boundary
  and raised to the minimum of 16 words, and a request that would exceed the capacity
  fails the assertion before a FIFO register is written or the cursor moves. The code:
  for a bulk IN endpoint of 0xFFFFFFFF bytes, which needs 1073741824 words where the
  FIFO has 320, the sum \<open>len + 3\<close> wraps around in \<open>size_t\<close> and the word length is 0;
  the assertion holds, DIEPTXF[0] is written with the size 0 at the offset 144, the
  cursor stays at 144 and the endpoint 1 is returned. The comment in the code asks for a
  FIFO of at least 16 words.
\<close>

theorem new_ep_huge_length_gets_empty_bank:
  "unat (fifo_pos fifo_ready) = 144 \<and> fifo_capacity stm32 fs_conf = 320
   \<and> (unat (0xFFFFFFFF :: u32) + 3) div 4 = 1073741824
   \<and> tx_wordlen 0xFFFFFFFF = 0
   \<and> (case usbdev_new_ep stm32 fs_conf fifo_ready USB_EP_TYPE_BULK USB_EP_DIR_IN 0xFFFFFFFF of
         Returns (r, s') \<Rightarrow>
           r = Some (In_ep 1) \<and> fifo_pos s' = 144
           \<and> new_writes fifo_ready s' = [(DIEPTXF 0, 144)]
           \<and> len (in_eps s' 1) = 0xFFFFFFFF
       | AssertFail s' \<Rightarrow> False
       | Undefined \<Rightarrow> False)"
  by (simp add: new_ep_noncontrol find_unassigned.simps get_ep_def
        stamped_def fifo_ready_def configure_fifo_def Let_def zeroed_def ctx_def upd_ctx_def
        configure_tx_fifo_def tx_wordlen_def DWC2_USB_OTG_FIFO_MIN_WORD_SIZE_def wr_def rd_def
        new_writes_def)

subsection \<open>Waiting for the hardware\<close>

lemma spin_released:
  "\<not> busy ((hw ^^ k) r) \<Longrightarrow> \<exists>r'. spin hw busy r = Some r' \<and> \<not> busy r'"
proof (induction k arbitrary: r)
  case 0
  then show ?case by (simp add: spin.simps)
next
  case (Suc k)
  show ?case
  proof (cases "busy r")
    case False
    then show ?thesis by (simp add: spin.simps)
  next
    case True
    from Suc.prems have "\<not> busy ((hw ^^ k) (hw r))" by (simp add: funpow_swap1)
    from Suc.IH [OF this] True show ?thesis by (simp add: spin.simps [of hw busy r])
  qed
qed

lemma spin_Some_not_busy:
  assumes "spin hw busy r = Some r'"
  shows "\<not> busy r'"
  by (rule spin.raw_induct [where P = "\<lambda>hw busy r y. \<not> busy y", OF _ assms])
     (auto split: if_splits)

lemma poll_returns:
  assumes "releases hw busy"
  shows "\<exists>s'. poll hw busy s = Some s' \<and> regs_only s s' \<and> \<not> busy (regs s')"
proof -
  from assms obtain k where "\<not> busy ((hw ^^ k) (regs s))" by (auto simp: releases_def)
  from spin_released [where busy = busy and hw = hw and k = k and r = "regs s", OF this]
  show ?thesis by (auto simp: poll_def regs_only_def)
qed

lemma poll_Some:
  "poll hw busy s = Some s' \<Longrightarrow> regs_only s s' \<and> \<not> busy (regs s')"
  by (auto simp: poll_def regs_only_def dest: spin_Some_not_busy)

subsection \<open>Flushing the FIFOs\<close>

lemma hw_effect_refl [simp]: "hw_effect s s"
  by (simp add: hw_effect_def)

lemma hw_effect_trans: "hw_effect s s1 \<Longrightarrow> hw_effect s1 s2 \<Longrightarrow> hw_effect s s2"
  by (auto simp: hw_effect_def)

lemma hw_effect_wr [simp]: "hw_effect s (wr r v s)"
  by (auto simp: hw_effect_def wr_def)

lemma flush_rx_fifo_Some:
  assumes "flush_rx_fifo hw p s = Some s'"
  shows "hw_effect s s' \<and> wrote s s' GRSTCTL (msk p USB_OTG_GRSTCTL_RXFFLSH)"
proof -
  let ?v = "rd s GRSTCTL OR msk p USB_OTG_GRSTCTL_RXFFLSH"
  from assms poll_Some have "regs_only (wr GRSTCTL ?v s) s'"
    unfolding flush_rx_fifo_def by blast
  then have "hw_effect s s'" "wlog s' = wlog s @ [(GRSTCTL, ?v)]"
    by (simp_all add: regs_only_def hw_effect_def wr_def)
  then show ?thesis
    by (simp add: wrote_def new_writes_def)
qed

lemma flush_tx_fifo_Some:
  assumes "flush_tx_fifo hw p n s = Some s'"
  shows "hw_effect s s'
     \<and> wrote s s' GRSTCTL (push_bit (pos p USB_OTG_GRSTCTL_TXFNUM_Pos) (ucast n)
                             OR msk p USB_OTG_GRSTCTL_TXFFLSH)"
proof -
  let ?v = "(rd s GRSTCTL AND NOT (msk p USB_OTG_GRSTCTL_TXFNUM))
            OR (push_bit (pos p USB_OTG_GRSTCTL_TXFNUM_Pos) (ucast n)
                OR msk p USB_OTG_GRSTCTL_TXFFLSH)"
  from assms poll_Some have "regs_only (wr GRSTCTL ?v s) s'"
    unfolding flush_tx_fifo_def Let_def by blast
  then have "hw_effect s s'" "wlog s' = wlog s @ [(GRSTCTL, ?v)]"
    by (simp_all add: regs_only_def hw_effect_def wr_def)
  then show ?thesis
    by (simp add: wrote_def new_writes_def)
qed

lemma flush_tx_fifo_exact:
  assumes "flush_tx_fifo hw p n s = Some s'"
  shows "new_writes s s'
     = [(GRSTCTL, (rd s GRSTCTL AND NOT (msk p USB_OTG_GRSTCTL_TXFNUM))
                   OR (push_bit (pos p USB_OTG_GRSTCTL_TXFNUM_Pos) (ucast n)
                       OR msk p USB_OTG_GRSTCTL_TXFFLSH))]"
proof -
  let ?v = "(rd s GRSTCTL AND NOT (msk p USB_OTG_GRSTCTL_TXFNUM))
            OR (push_bit (pos p USB_OTG_GRSTCTL_TXFNUM_Pos) (ucast n)
                OR msk p USB_OTG_GRSTCTL_TXFFLSH)"
  from assms poll_Some have "regs_only (wr GRSTCTL ?v s) s'"
    unfolding flush_tx_fifo_def Let_def by blast
  then have "wlog s' = wlog s @ [(GRSTCTL, ?v)]"
    by (simp add: regs_only_def wr_def)
  then show ?thesis by (simp add: new_writes_def)
qed


lemma flush_rx_fifo_returns:
  "flush_acks hw p \<Longrightarrow> \<exists>s'. flush_rx_fifo hw p s = Some s'"
  unfolding flush_rx_fifo_def flush_acks_def using poll_returns by blast

lemma flush_tx_fifo_returns:
  "flush_acks hw p \<Longrightarrow> \<exists>s'. flush_tx_fifo hw p n s = Some s'"
  unfolding flush_tx_fifo_def flush_acks_def Let_def using poll_returns by blast

lemma wake_periph_Some:
  assumes "wake_periph hw p s = Some s'"
  shows "hw_effect s s'"
proof -
  let ?s1 = "wr PCGCCTL (rd s PCGCCTL AND NOT (msk p USB_OTG_PCGCCTL_STOPCLK)) s"
  from assms obtain s2 where a: "flush_rx_fifo hw p ?s1 = Some s2"
    and b: "flush_tx_fifo hw p 0x10 s2 = Some s'"
    by (auto simp: wake_periph_def Let_def split: Option.bind_splits)
  from flush_rx_fifo_Some [OF a] flush_tx_fifo_Some [OF b]
  have "hw_effect ?s1 s2" "hw_effect s2 s'" by simp_all
  with hw_effect_wr [of s PCGCCTL] show ?thesis
    by (meson hw_effect_trans)
qed

lemma wake_periph_returns:
  assumes "flush_acks hw p"
  shows "\<exists>s'. wake_periph hw p s = Some s'"
proof -
  let ?s1 = "wr PCGCCTL (rd s PCGCCTL AND NOT (msk p USB_OTG_PCGCCTL_STOPCLK)) s"
  from flush_rx_fifo_returns [OF assms] obtain s2 where a: "flush_rx_fifo hw p ?s1 = Some s2"
    by blast
  from flush_tx_fifo_returns [OF assms] obtain s3 where "flush_tx_fifo hw p 0x10 s2 = Some s3"
    by blast
  with a show ?thesis by (simp add: wake_periph_def Let_def)
qed

text \<open>The example hardware finishes the flushes.\<close>

lemma prompt_hw_GRSTCTL: "prompt_hw r GRSTCTL = r GRSTCTL AND NOT 0x30"
  by (simp add: prompt_hw_def Let_def)

lemma flush_acks_prompt_hw: "flush_acks prompt_hw stm32"
proof -
  have "(prompt_hw ^^ 1) r GRSTCTL AND 0x10 = 0" "(prompt_hw ^^ 1) r GRSTCTL AND 0x20 = 0" for r
    by (simp_all add: prompt_hw_GRSTCTL and.assoc)
  then show ?thesis
    unfolding flush_acks_def releases_def by (simp only: stm32_fields stm32_msk.simps) blast
qed

subsection \<open>The reset of the endpoints and of the address\<close>

lemma or_keeps_bits: "a AND m = m \<Longrightarrow> (a OR x) AND m = (m::u32)"
  by (metis word_ao_absorbs(2) word_bw_assocs(1) word_bw_comms(1) word_ao_dist)

lemma rd_reset_ep_DOEPCTL:
  "rd (reset_ep p i s) (DOEPCTL i) = rd s (DOEPCTL i) OR msk p USB_OTG_DOEPCTL_SNAK"
  by (simp add: reset_ep_def Let_def)

lemma rd_reset_ep_DIEPCTL:
  "rd (reset_ep p i s) (DIEPCTL i)
     = (rd s (DIEPCTL i) OR msk p USB_OTG_DIEPCTL_SNAK)
       OR push_bit (pos p USB_OTG_DIEPCTL_TXFNUM_Pos) (of_nat i)"
  by (simp add: reset_ep_def Let_def)

lemma reset_ep_keeps_bits:
  "rd s r AND m = m \<Longrightarrow> rd (reset_ep p i s) r AND m = m"
  by (auto simp: reset_ep_def Let_def or_keeps_bits)

lemma hw_effect_reset_ep: "hw_effect s (reset_ep p i s)"
  by (simp add: reset_ep_def Let_def hw_effect_def wr_def)

lemma reset_upto:
  "hw_effect s (fold (reset_ep p) [0..<n] s)
   \<and> (\<forall>i<n. rd (fold (reset_ep p) [0..<n] s) (DOEPCTL i) AND msk p USB_OTG_DOEPCTL_SNAK
                 = msk p USB_OTG_DOEPCTL_SNAK
             \<and> rd (fold (reset_ep p) [0..<n] s) (DIEPCTL i) AND msk p USB_OTG_DIEPCTL_SNAK
                 = msk p USB_OTG_DIEPCTL_SNAK)"
proof (induction n)
  case 0
  then show ?case by simp
next
  case (Suc n)
  let ?t = "fold (reset_ep p) [0..<n] s"
  have f: "fold (reset_ep p) [0..<Suc n] s = reset_ep p n ?t" by simp
  have "hw_effect s (reset_ep p n ?t)"
    using Suc hw_effect_reset_ep [of ?t p n] hw_effect_trans by blast
  moreover have "rd (reset_ep p n ?t) (DOEPCTL i) AND msk p USB_OTG_DOEPCTL_SNAK
                 = msk p USB_OTG_DOEPCTL_SNAK
             \<and> rd (reset_ep p n ?t) (DIEPCTL i) AND msk p USB_OTG_DIEPCTL_SNAK
                 = msk p USB_OTG_DIEPCTL_SNAK" if "i < Suc n" for i
  proof (cases "i = n")
    case True
    then show ?thesis
      by (simp add: rd_reset_ep_DOEPCTL rd_reset_ep_DIEPCTL or_keeps_bits)
  next
    case False
    with that Suc have "rd ?t (DOEPCTL i) AND msk p USB_OTG_DOEPCTL_SNAK
                 = msk p USB_OTG_DOEPCTL_SNAK"
      "rd ?t (DIEPCTL i) AND msk p USB_OTG_DIEPCTL_SNAK = msk p USB_OTG_DIEPCTL_SNAK"
      by simp_all
    then show ?thesis by (simp add: reset_ep_keeps_bits)
  qed
  ultimately show ?case unfolding f by blast
qed

lemma rd_set_address:
  "rd (set_address p a s) r
     = (if r = DCFG then (rd s DCFG AND NOT (msk p USB_OTG_DCFG_DAD_Msk))
                          OR push_bit (pos p USB_OTG_DCFG_DAD_Pos) (ucast a)
        else rd s r)"
  by (simp add: set_address_def)

lemma hw_effect_set_address: "hw_effect s (set_address p a s)"
  by (simp add: set_address_def)

lemma rd_esr_finish:
  "rd (esr_finish p ev s) r
     = (if r = GAHBCFG then rd s GAHBCFG OR msk p USB_OTG_GAHBCFG_GINT
        else if r = GINTSTS then rd s GINTSTS OR ev else rd s r)"
  by (simp add: esr_finish_def Let_def)

lemma hw_effect_esr_finish: "hw_effect s (esr_finish p ev s)"
  by (simp add: esr_finish_def Let_def hw_effect_def wr_def)

text \<open>The tail of the branch of the reset start.\<close>

lemma reset_tail:
  assumes s'_def:
    "s' = esr_finish p (msk p USB_OTG_GINTSTS_USBRST) (set_address p 0 (reset_eps p conf s3))"
  shows "hw_effect s3 s'
     \<and> (\<forall>i<max_endpoints p conf.
           rd s' (DOEPCTL i) AND msk p USB_OTG_DOEPCTL_SNAK = msk p USB_OTG_DOEPCTL_SNAK
           \<and> rd s' (DIEPCTL i) AND msk p USB_OTG_DIEPCTL_SNAK = msk p USB_OTG_DIEPCTL_SNAK)
     \<and> rd s' DCFG AND msk p USB_OTG_DCFG_DAD_Msk = 0"
proof -
  let ?a = "reset_eps p conf s3"
  let ?b = "set_address p 0 ?a"
  from reset_upto [of s3 p "max_endpoints p conf"]
  have a: "hw_effect s3 ?a"
    "\<forall>i<max_endpoints p conf.
           rd ?a (DOEPCTL i) AND msk p USB_OTG_DOEPCTL_SNAK = msk p USB_OTG_DOEPCTL_SNAK
           \<and> rd ?a (DIEPCTL i) AND msk p USB_OTG_DIEPCTL_SNAK = msk p USB_OTG_DIEPCTL_SNAK"
    by (simp_all add: reset_eps_def)
  have "hw_effect s3 s'"
    unfolding s'_def
    using a(1) hw_effect_set_address [of ?a p 0] hw_effect_esr_finish [of ?b p]
      hw_effect_trans by blast
  moreover have "rd s' (DOEPCTL i) = rd ?a (DOEPCTL i)" "rd s' (DIEPCTL i) = rd ?a (DIEPCTL i)"
    for i
    by (simp_all add: s'_def rd_esr_finish rd_set_address)
  moreover have "rd s' DCFG AND msk p USB_OTG_DCFG_DAD_Msk = 0"
    by (simp add: s'_def rd_esr_finish rd_set_address)
  ultimately show ?thesis using a(2) by simp
qed

subsection \<open>The start of a bus reset\<close>

text \<open>
  C2: when \<open>_usbdev_esr\<close> runs with the flag of the reset start set in the interrupt
  status and the flag of the finished enumeration clear, and the hardware finishes the
  flushes that the driver waits for, the handler returns, and during the run it has
  written the flush request for the receive FIFO and the flush request for all transmit
  FIFOs (number 0x10 in the place of the old FIFO number) to GRSTCTL; when it returns, the bit SNAK is set in the control
  register of every IN and every OUT endpoint of the instance and the address field of
  DCFG is 0. The state at entry is arbitrary: the suspend flag may be true or false.
\<close>

theorem reset_start_resets_everything:
  assumes pend: "reset_start_pending p s" and acks: "flush_acks hw p"
  shows "\<exists>s'. usbdev_esr hw p conf s = Some s'
     \<and> wrote s s' GRSTCTL (msk p USB_OTG_GRSTCTL_RXFFLSH)
     \<and> wrote s s' GRSTCTL (push_bit (pos p USB_OTG_GRSTCTL_TXFNUM_Pos) 0x10
                              OR msk p USB_OTG_GRSTCTL_TXFFLSH)
     \<and> (\<forall>i<max_endpoints p conf.
           rd s' (DOEPCTL i) AND msk p USB_OTG_DOEPCTL_SNAK = msk p USB_OTG_DOEPCTL_SNAK
           \<and> rd s' (DIEPCTL i) AND msk p USB_OTG_DIEPCTL_SNAK = msk p USB_OTG_DIEPCTL_SNAK)
     \<and> rd s' DCFG AND msk p USB_OTG_DCFG_DAD_Msk = 0
     \<and> (\<exists>g. (GRSTCTL, (g AND NOT (msk p USB_OTG_GRSTCTL_TXFNUM))
                         OR (push_bit (pos p USB_OTG_GRSTCTL_TXFNUM_Pos) 0x10
                             OR msk p USB_OTG_GRSTCTL_TXFFLSH))
              \<in> set (new_writes s s'))"
proof -
  let ?s0 = "s\<lparr>suspend := False\<rparr>"
  obtain s1 where s1: "(if suspend s then wake_periph hw p ?s0 else Some s) = Some s1"
    using wake_periph_returns [OF acks, of ?s0] by (cases "suspend s") auto
  have e1: "wlog s1 = wlog s @ new_writes s s1"
  proof (cases "suspend s")
    case True
    with s1 wake_periph_Some [of hw p ?s0 s1] show ?thesis
      by (auto simp: hw_effect_def new_writes_def)
  next
    case False
    with s1 show ?thesis by (simp add: new_writes_def)
  qed
  obtain s2 where s2: "flush_rx_fifo hw p s1 = Some s2"
    using flush_rx_fifo_returns [OF acks] by blast
  obtain s3 where s3: "flush_tx_fifo hw p 0x10 s2 = Some s3"
    using flush_tx_fifo_returns [OF acks] by blast
  let ?s' = "esr_finish p (msk p USB_OTG_GINTSTS_USBRST) (set_address p 0 (reset_eps p conf s3))"
  from pend s1 s2 s3 have ret: "usbdev_esr hw p conf s = Some ?s'"
    by (simp add: usbdev_esr_def reset_start_pending_def Let_def)
  note rx = flush_rx_fifo_Some [OF s2]
  note tx = flush_tx_fifo_Some [OF s3]
  note tail = reset_tail [of ?s' p conf s3, OF refl]
  have l2: "wlog s2 = wlog s1 @ new_writes s1 s2" 
    and l3: "wlog s3 = wlog s2 @ new_writes s2 s3"
    and l4: "wlog ?s' = wlog s3 @ new_writes s3 ?s'"
    using rx tx tail by (auto simp: hw_effect_def new_writes_def)
  have nw: "new_writes s ?s'
      = new_writes s s1 @ new_writes s1 s2 @ new_writes s2 s3 @ new_writes s3 ?s'"
    using e1 l2 l3 l4 by (simp add: new_writes_def [of s ?s'])
  have "wrote s ?s' GRSTCTL (msk p USB_OTG_GRSTCTL_RXFFLSH)"
    using rx by (simp add: wrote_def nw)
  moreover have "wrote s ?s' GRSTCTL (push_bit (pos p USB_OTG_GRSTCTL_TXFNUM_Pos) 0x10
                              OR msk p USB_OTG_GRSTCTL_TXFFLSH)"
    using tx by (simp add: wrote_def nw)
  moreover have "\<exists>g. (GRSTCTL, (g AND NOT (msk p USB_OTG_GRSTCTL_TXFNUM))
                         OR (push_bit (pos p USB_OTG_GRSTCTL_TXFNUM_Pos) 0x10
                             OR msk p USB_OTG_GRSTCTL_TXFFLSH))
              \<in> set (new_writes s ?s')"
    using flush_tx_fifo_exact [OF s3] by (auto simp: nw)
  ultimately show ?thesis using ret tail by blast
qed

theorem reset_start_resets_everything_witness:
  "reset_start_pending stm32 suspended_reset_state \<and> suspend suspended_reset_state
   \<and> flush_acks prompt_hw stm32
   \<and> (\<exists>s'. usbdev_esr prompt_hw stm32 fs_conf suspended_reset_state = Some s'
         \<and> wrote suspended_reset_state s' GRSTCTL 0x10
         \<and> wrote suspended_reset_state s' GRSTCTL 0x420
         \<and> rd s' (DOEPCTL 3) AND 0x8000000 = 0x8000000
         \<and> rd s' (DIEPCTL 0) AND 0x8000000 = 0x8000000
         \<and> rd s' DCFG AND 0x7F0 = 0)"
proof -
  have a: "reset_start_pending stm32 suspended_reset_state"
    and b: "suspend suspended_reset_state"
    by (simp_all add: reset_start_pending_def suspended_reset_state_def zeroed_def rd_def)
  from reset_start_resets_everything [OF a flush_acks_prompt_hw, of fs_conf]
  obtain s' where
    r: "usbdev_esr prompt_hw stm32 fs_conf suspended_reset_state = Some s'"
    and w1: "wrote suspended_reset_state s' GRSTCTL (msk stm32 USB_OTG_GRSTCTL_RXFFLSH)"
    and w2: "wrote suspended_reset_state s' GRSTCTL
               (push_bit (pos stm32 USB_OTG_GRSTCTL_TXFNUM_Pos) 0x10
                OR msk stm32 USB_OTG_GRSTCTL_TXFFLSH)"
    and n: "\<forall>i<max_endpoints stm32 fs_conf.
           rd s' (DOEPCTL i) AND msk stm32 USB_OTG_DOEPCTL_SNAK = msk stm32 USB_OTG_DOEPCTL_SNAK
           \<and> rd s' (DIEPCTL i) AND msk stm32 USB_OTG_DIEPCTL_SNAK = msk stm32 USB_OTG_DIEPCTL_SNAK"
    and d: "rd s' DCFG AND msk stm32 USB_OTG_DCFG_DAD_Msk = 0"
    and x: "\<exists>g. (GRSTCTL, (g AND NOT (msk stm32 USB_OTG_GRSTCTL_TXFNUM))
                         OR (push_bit (pos stm32 USB_OTG_GRSTCTL_TXFNUM_Pos) 0x10
                             OR msk stm32 USB_OTG_GRSTCTL_TXFFLSH))
              \<in> set (new_writes suspended_reset_state s')"
    by (elim exE conjE) blast
  from n have "rd s' (DOEPCTL 3) AND 0x8000000 = 0x8000000"
    "rd s' (DIEPCTL 0) AND 0x8000000 = 0x8000000"
    by simp_all
  moreover from w1 w2 have "wrote suspended_reset_state s' GRSTCTL 0x10"
    "wrote suspended_reset_state s' GRSTCTL 0x420"
    by simp_all
  moreover from d have "rd s' DCFG AND 0x7F0 = 0" by simp
  ultimately show ?thesis using a b r flush_acks_prompt_hw by blast
qed

subsection \<open>Suspend and resume\<close>

lemma hw_effect_upcall_events:
  "events (upcall u s) = events s @ [u]" "suspend (upcall u s) = suspend s"
  by (simp_all add: upcall_def)

lemma hw_effect_sleep_periph: "hw_effect s (sleep_periph p s)"
  by (simp add: sleep_periph_def)

lemma esr_finish_fields [simp]:
  "events (esr_finish p ev s) = events s" "suspend (esr_finish p ev s) = suspend s"
  using hw_effect_esr_finish [of s p ev] by (simp_all add: hw_effect_def)

lemma sleep_periph_fields [simp]:
  "events (sleep_periph p s) = events s" "suspend (sleep_periph p s) = suspend s"
  using hw_effect_sleep_periph [of s p] by (simp_all add: hw_effect_def)

lemma rd_upcall [simp]: "rd (upcall u s) r = rd s r"
  by (simp add: upcall_def rd_def)

text \<open>The states through the branch of the reset start.\<close>

lemma reset_branch_Some:
  assumes "(if suspend s then wake_periph hw p (s\<lparr>suspend := False\<rparr>) else Some s) = Some s1"
    and "flush_rx_fifo hw p s1 = Some s2" and "flush_tx_fifo hw p n s2 = Some s3"
  shows "events s3 = events s \<and> \<not> suspend s3"
proof -
  have "events s1 = events s \<and> \<not> suspend s1"
  proof (cases "suspend s")
    case True
    with assms(1) wake_periph_Some [of hw p "s\<lparr>suspend := False\<rparr>" s1] show ?thesis
      by (simp add: hw_effect_def)
  next
    case False
    with assms(1) show ?thesis by simp
  qed
  with flush_rx_fifo_Some [OF assms(2)] flush_tx_fifo_Some [OF assms(3)] show ?thesis
    by (simp add: hw_effect_def)
qed

lemma esr_step:
  assumes "usbdev_esr hw p conf s = Some s'"
  shows "(esr_obs p s s', suspend s') = step_obs p (rd s GINTSTS) (suspend s)"
proof -
  let ?st = "rd s GINTSTS"
  consider (enum) "?st AND msk p USB_OTG_GINTSTS_ENUMDNE \<noteq> 0"
    | (reset) "?st AND msk p USB_OTG_GINTSTS_ENUMDNE = 0" "?st AND msk p USB_OTG_GINTSTS_USBRST \<noteq> 0"
    | (srq) "?st AND msk p USB_OTG_GINTSTS_ENUMDNE = 0" "?st AND msk p USB_OTG_GINTSTS_USBRST = 0"
        "?st AND msk p USB_OTG_GINTSTS_SRQINT \<noteq> 0"
    | (susp) "?st AND msk p USB_OTG_GINTSTS_ENUMDNE = 0" "?st AND msk p USB_OTG_GINTSTS_USBRST = 0"
        "?st AND msk p USB_OTG_GINTSTS_SRQINT = 0" "?st AND msk p USB_OTG_GINTSTS_USBSUSP \<noteq> 0"
    | (wake) "?st AND msk p USB_OTG_GINTSTS_ENUMDNE = 0" "?st AND msk p USB_OTG_GINTSTS_USBRST = 0"
        "?st AND msk p USB_OTG_GINTSTS_SRQINT = 0" "?st AND msk p USB_OTG_GINTSTS_USBSUSP = 0"
        "?st AND msk p USB_OTG_GINTSTS_WKUINT \<noteq> 0"
    | (none) "?st AND msk p USB_OTG_GINTSTS_ENUMDNE = 0" "?st AND msk p USB_OTG_GINTSTS_USBRST = 0"
        "?st AND msk p USB_OTG_GINTSTS_SRQINT = 0" "?st AND msk p USB_OTG_GINTSTS_USBSUSP = 0"
        "?st AND msk p USB_OTG_GINTSTS_WKUINT = 0"
    by blast
  then show ?thesis
  proof cases
    case enum
    with assms show ?thesis
      by (auto simp: usbdev_esr_def Let_def step_obs_def esr_obs_def reset_start_pending_def
            new_events_def hw_effect_upcall_events)
  next
    case reset
    with assms obtain s1 s2 s3 where
      a: "(if suspend s then wake_periph hw p (s\<lparr>suspend := False\<rparr>) else Some s) = Some s1"
      "flush_rx_fifo hw p s1 = Some s2" "flush_tx_fifo hw p 0x10 s2 = Some s3"
      and s': "s' = esr_finish p (msk p USB_OTG_GINTSTS_USBRST)
                  (set_address p 0 (reset_eps p conf s3))"
      by (auto simp: usbdev_esr_def Let_def split: Option.bind_splits)
    from reset_branch_Some [OF a] reset_tail [OF s']
    have "events s' = events s" "\<not> suspend s'" by (simp_all add: hw_effect_def)
    with reset show ?thesis
      by (simp add: step_obs_def esr_obs_def reset_start_pending_def new_events_def)
  next
    case srq
    with assms show ?thesis
      by (auto simp: usbdev_esr_def Let_def step_obs_def esr_obs_def reset_start_pending_def
            new_events_def)
  next
    case susp
    with assms show ?thesis
      by (auto simp: usbdev_esr_def Let_def step_obs_def esr_obs_def reset_start_pending_def
            new_events_def hw_effect_upcall_events)
  next
    case wake
    show ?thesis
    proof (cases "suspend s")
      case False
      with wake assms show ?thesis
        by (auto simp: usbdev_esr_def Let_def step_obs_def esr_obs_def reset_start_pending_def
              new_events_def)
    next
      case True
      with wake assms obtain s1 where
        a: "wake_periph hw p (s\<lparr>suspend := False\<rparr>) = Some s1"
        and s': "s' = esr_finish p (msk p USB_OTG_GINTSTS_WKUINT)
                        (upcall (Cb USBDEV_EVENT_RESUME) s1)"
        by (auto simp: usbdev_esr_def Let_def split: Option.bind_splits)
      from wake_periph_Some [OF a] have "events s1 = events s" "\<not> suspend s1"
        by (simp_all add: hw_effect_def)
      with s' have "events s' = events s @ [Cb USBDEV_EVENT_RESUME]" "\<not> suspend s'"
        by (simp_all add: hw_effect_upcall_events)
      with wake True show ?thesis
        by (simp add: step_obs_def esr_obs_def reset_start_pending_def new_events_def)
    qed
  next
    case none
    with assms show ?thesis
      by (auto simp: usbdev_esr_def Let_def step_obs_def esr_obs_def reset_start_pending_def
            new_events_def)
  qed
qed

lemma esr_returns:
  assumes "flush_acks hw p"
  shows "\<exists>s'. usbdev_esr hw p conf s = Some s'"
proof -
  obtain s1 where s1: "(if suspend s then wake_periph hw p (s\<lparr>suspend := False\<rparr>) else Some s)
      = Some s1"
    using wake_periph_returns [OF assms, of "s\<lparr>suspend := False\<rparr>"] by (cases "suspend s") auto
  obtain s2 where s2: "flush_rx_fifo hw p s1 = Some s2"
    using flush_rx_fifo_returns [OF assms] by blast
  obtain s3 where s3: "flush_tx_fifo hw p 0x10 s2 = Some s3"
    using flush_tx_fifo_returns [OF assms] by blast
  obtain s4 where s4: "wake_periph hw p (s\<lparr>suspend := False\<rparr>) = Some s4"
    using wake_periph_returns [OF assms] by blast
  from s1 s2 s3 s4 show ?thesis
    by (simp add: usbdev_esr_def Let_def)
qed

lemma no_double_suspend_step:
  "no_double_suspend b (fst (step_obs p st b) @ os)
     = no_double_suspend (snd (step_obs p st b)) os"
  by (simp add: step_obs_def)

lemma no_double_suspend_weaken: "no_double_suspend b os \<Longrightarrow> no_double_suspend False os"
  by (induction b os rule: no_double_suspend.induct) simp_all

lemma esr_seq_ok:
  "esr_seq hw p conf s irqs = (os, out) \<Longrightarrow> no_double_suspend (suspend s) os"
proof (induction irqs arbitrary: s os out)
  case Nil
  then show ?case by simp
next
  case (Cons irq irqs)
  let ?s1 = "s\<lparr>regs := irq (regs s)\<rparr>"
  show ?case
  proof (cases "usbdev_esr hw p conf ?s1")
    case None
    with Cons.prems show ?thesis by (simp add: Let_def)
  next
    case (Some s2)
    obtain os' out' where r: "esr_seq hw p conf s2 irqs = (os', out')"
      by (cases "esr_seq hw p conf s2 irqs")
    with Cons.prems Some have os: "os = esr_obs p ?s1 s2 @ os'" by (simp add: Let_def)
    from esr_step [OF Some]
    have st: "esr_obs p ?s1 s2 = fst (step_obs p (rd ?s1 GINTSTS) (suspend s))"
      "suspend s2 = snd (step_obs p (rd ?s1 GINTSTS) (suspend s))"
      by (simp_all add: prod_eq_iff)
    from Cons.IH [OF r] show ?thesis
      unfolding os st by (simp only: no_double_suspend_step)
  qed
qed

lemma esr_seq_run:
  assumes "flush_acks hw p"
  shows "\<exists>s'. esr_seq hw p conf s (map raise_irq sts) = (run_obs p (suspend s) sts, Some s')"
proof (induction sts arbitrary: s)
  case Nil
  then show ?case by simp
next
  case (Cons st sts)
  let ?s1 = "s\<lparr>regs := raise_irq st (regs s)\<rparr>"
  from esr_returns [OF assms] obtain s2 where s2: "usbdev_esr hw p conf ?s1 = Some s2"
    by blast
  have g: "rd ?s1 GINTSTS = st" by (simp add: rd_def raise_irq_def)
  from esr_step [OF s2]
  have st: "esr_obs p ?s1 s2 = fst (step_obs p st (suspend s))"
      "suspend s2 = snd (step_obs p st (suspend s))"
    by (simp_all add: prod_eq_iff g)
  from Cons.IH [of s2] obtain s' where
    "esr_seq hw p conf s2 (map raise_irq sts) = (run_obs p (suspend s2) sts, Some s')"
    by blast
  with s2 st show ?case by (simp add: Let_def)
qed

lemma esr_invocation:
  assumes "usbdev_esr hw p conf s = Some s'"
  shows "(Cb USBDEV_EVENT_SUSPEND \<in> set (new_events s s') \<longleftrightarrow> suspend_pending p s \<and> \<not> suspend s)
     \<and> (Cb USBDEV_EVENT_SUSPEND \<in> set (new_events s s') \<longrightarrow> suspend s')
     \<and> (suspend s \<and> \<not> suspend s' \<longrightarrow> wake_pending p s \<or> reset_start_pending p s)
     \<and> (\<not> suspend s \<and> suspend s' \<longrightarrow> suspend_pending p s)"
proof -
  have m: "Cb USBDEV_EVENT_SUSPEND \<in> set (new_events s s')
      \<longleftrightarrow> Delivered (Cb USBDEV_EVENT_SUSPEND) \<in> set (esr_obs p s s')"
    by (auto simp: esr_obs_def)
  from esr_step [OF assms]
  have st: "esr_obs p s s' = fst (step_obs p (rd s GINTSTS) (suspend s))"
      "suspend s' = snd (step_obs p (rd s GINTSTS) (suspend s))"
    by (simp_all add: prod_eq_iff)
  show ?thesis
    unfolding m st
    by (simp add: step_obs_def suspend_pending_def wake_pending_def reset_start_pending_def)
qed

text \<open>
  C4: along every sequence of runs of \<open>_usbdev_esr\<close>, with any change of the registers
  by the hardware between the runs, SUSPEND is never delivered twice without a RESUME
  delivered or a reset start handled in between. In one run, SUSPEND is delivered exactly
  when the branch of the suspend interrupt is taken with the suspend flag false, and the
  flag is true when that run returns; the flag goes from true to false only in the branch
  of the wake-up interrupt or of the reset start, and from false to true only in the
  branch of the suspend interrupt.
\<close>

theorem suspend_not_delivered_twice:
  assumes "esr_seq hw p conf s0 irqs = (os, out)"
  shows "no_double_suspend (suspend s0) os \<and> no_double_suspend False os
     \<and> (\<forall>s s'. usbdev_esr hw p conf s = Some s' \<longrightarrow>
          (Cb USBDEV_EVENT_SUSPEND \<in> set (new_events s s')
             \<longleftrightarrow> suspend_pending p s \<and> \<not> suspend s)
          \<and> (Cb USBDEV_EVENT_SUSPEND \<in> set (new_events s s') \<longrightarrow> suspend s')
          \<and> (suspend s \<and> \<not> suspend s' \<longrightarrow> wake_pending p s \<or> reset_start_pending p s)
          \<and> (\<not> suspend s \<and> suspend s' \<longrightarrow> suspend_pending p s))"
proof -
  from esr_seq_ok [OF assms] have a: "no_double_suspend (suspend s0) os" .
  then have b: "no_double_suspend False os" by (rule no_double_suspend_weaken)
  from a b esr_invocation [of hw p conf] show ?thesis by blast
qed

theorem suspend_not_delivered_twice_witness:
  "\<exists>s'. esr_seq prompt_hw stm32 fs_conf zeroed (map raise_irq irq_sequence)
          = ([Delivered (Cb USBDEV_EVENT_SUSPEND), Delivered (Cb USBDEV_EVENT_RESUME),
              Delivered (Cb USBDEV_EVENT_SUSPEND), Reset_start_handled,
              Delivered (Cb USBDEV_EVENT_SUSPEND)], Some s')
     \<and> no_double_suspend False
          [Delivered (Cb USBDEV_EVENT_SUSPEND), Delivered (Cb USBDEV_EVENT_RESUME),
           Delivered (Cb USBDEV_EVENT_SUSPEND), Reset_start_handled,
           Delivered (Cb USBDEV_EVENT_SUSPEND)]"
proof -
  have r: "run_obs stm32 (suspend zeroed) irq_sequence
      = [Delivered (Cb USBDEV_EVENT_SUSPEND), Delivered (Cb USBDEV_EVENT_RESUME),
         Delivered (Cb USBDEV_EVENT_SUSPEND), Reset_start_handled,
         Delivered (Cb USBDEV_EVENT_SUSPEND)]"
    by (simp add: irq_sequence_def step_obs_def zeroed_def)
  from esr_seq_run [OF flush_acks_prompt_hw, of fs_conf zeroed irq_sequence] 
  obtain s' where
    e: "esr_seq prompt_hw stm32 fs_conf zeroed (map raise_irq irq_sequence)
          = (run_obs stm32 (suspend zeroed) irq_sequence, Some s')"
    by blast
  from suspend_not_delivered_twice [OF e] e show ?thesis
    unfolding r by blast
qed

text \<open>
  The interrupts that the dispatcher disabled are enabled again by the handler: when
  \<open>_usbdev_esr\<close> returns, the bit GINT of GAHBCFG is set.
\<close>

lemma esr_sets_gint:
  assumes "usbdev_esr hw p conf s = Some s'"
  shows "rd s' GAHBCFG AND msk p USB_OTG_GAHBCFG_GINT = msk p USB_OTG_GAHBCFG_GINT"
proof -
  from assms have "\<exists>ev t. s' = esr_finish p ev t"
    by (auto simp: usbdev_esr_def Let_def split: if_splits Option.bind_splits)
  then show ?thesis by (auto simp: rd_esr_finish)
qed

subsection \<open>Activating an endpoint\<close>

text \<open>
  On any platform: for an endpoint of the OUT direction other than endpoint 0 that is not
  enabled, the call returns, and the value it leaves in DOEPCTL does not depend on the
  type of the endpoint.
\<close>

lemma ep_activate_out_value:
  assumes "dir (ep (out_eps s i)) = USB_EP_DIR_OUT" and "num (ep (out_eps s i)) = n"
    and "n \<noteq> 0" and "type (ep (out_eps s i)) \<noteq> USB_EP_TYPE_NONE"
    and "rd s (DOEPCTL n) AND msk p USB_OTG_DOEPCTL_EPENA = 0"
  shows "reg_after (ep_activate hw p s (Out_ep i)) (DOEPCTL n)
     = Some (((rd s (DOEPCTL n)
                OR (msk p USB_OTG_DOEPCTL_SNAK OR msk p USB_OTG_DOEPCTL_USBAEP))
               OR len (ep (out_eps s i)))
              OR msk p USB_OTG_DOEPCTL_SD0PID_SEVNFRM)"
  using assms
  by (cases "type (ep (out_eps s i))")
     (simp_all add: ep_activate_def ep_out_disable_def Let_def ctx_def type_to_reg_def
        reg_after_def)

text \<open>
  C8, at the failing input. The claim: \<open>_ep_activate\<close> programs the type of the endpoint
  into the endpoint control register in either direction. The code: for the bulk OUT
  endpoint 1 of 64 bytes with DOEPCTL zero, the call unmasks bit 17 of DAINTMSK and
  leaves DOEPCTL at SNAK, USBAEP, the length 64 and SD0PID: the type field (bits 18 and
  19, 0x80000 for bulk) is not set, since the value of \<open>_type_to_reg(ep->type)\<close> is
  computed in a statement of its own and dropped. For the bulk IN endpoint 1 the sibling
  branch writes the type into DIEPCTL.
\<close>

theorem ep_activate_out_leaves_type_unprogrammed:
  "type (ctx (out1_state 0) (Out_ep 1)) = USB_EP_TYPE_BULK
   \<and> type_to_reg stm32 USB_EP_TYPE_BULK = Some 0x80000
   \<and> reg_after (ep_activate prompt_hw stm32 (out1_state 0) (Out_ep 1)) (DOEPCTL 1)
       = Some 0x18008040
   \<and> reg_after (ep_activate prompt_hw stm32 (out1_state 0) (Out_ep 1)) DAINTMSK
       = Some 0x20000
   \<and> reg_after (ep_activate prompt_hw stm32 in1_state (In_ep 1)) (DIEPCTL 1)
       = Some 0x18488040"
  by (simp add: ep_activate_def ep_out_disable_def ep_in_disable_def Let_def out1_state_def
        in1_state_def zeroed_def ctx_def rd_def wr_def type_to_reg_def reg_after_def
        DWC2_USB_OTG_REG_EP_OUT_OFFSET_def)

end
